theory Spec2Isabelle
  imports Main "HOL-Library.Sublist"
begin

section \<open>JavaScript string primitives\<close>

text \<open>
  A JavaScript string is modelled as a list of code units (\<open>string\<close>, with the code
  units below 256 that \<open>char\<close> has); \<open>length\<close> is the JavaScript \<open>.length\<close>. Offsets
  into strings are \<open>int\<close>, because the processor stores the sentinel \<open>-1\<close> in the
  same variables that hold offsets.
\<close>

abbreviation NL :: char where
  "NL \<equiv> CHR 0x0A"

text \<open>\<open>s[i]\<close>: \<open>None\<close> stands for \<open>undefined\<close> (index out of range).\<close>

definition char_at :: "string \<Rightarrow> int \<Rightarrow> char option" where
  "char_at s i = (if 0 \<le> i \<and> i < int (length s) then Some (s ! nat i) else None)"

text \<open>\<open>s.slice(start, end)\<close>: negative indices count from the end, all indices are clamped.\<close>

definition js_slice :: "string \<Rightarrow> int \<Rightarrow> int \<Rightarrow> string" where
  "js_slice s start end =
     (let n = int (length s);
          from = (if start < 0 then max (n + start) 0 else min start n);
          to = (if end < 0 then max (n + end) 0 else min end n)
      in take (nat (to - from)) (drop (nat from) s))"

text \<open>\<open>s.split("\n")\<close>: never returns the empty array.\<close>

fun split_nl :: "string \<Rightarrow> string list" where
  "split_nl [] = [[]]"
| "split_nl (c # cs) =
     (if c = NL then [] # split_nl cs
      else (case split_nl cs of [] \<Rightarrow> [[c]] | l # ls \<Rightarrow> (c # l) # ls))"

text \<open>\<open>a.join("\n")\<close>.\<close>

fun join_nl :: "string list \<Rightarrow> string" where
  "join_nl [] = []"
| "join_nl [l] = l"
| "join_nl (l # m # ls) = l @ NL # join_nl (m # ls)"

text \<open>
  \<open>trim\<close> and \<open>trimEnd\<close> strip the ECMAScript white space and line terminator code
  units; below 256 these are TAB, LF, VT, FF, CR, SPACE and NBSP.
\<close>

definition is_ws :: "char \<Rightarrow> bool" where
  "is_ws c \<longleftrightarrow> c \<in> {CHR 0x09, CHR 0x0A, CHR 0x0B, CHR 0x0C, CHR 0x0D, CHR 0x20, CHR 0xA0}"

definition trimStart :: "string \<Rightarrow> string" where
  "trimStart s = dropWhile is_ws s"

definition trimEnd :: "string \<Rightarrow> string" where
  "trimEnd s = rev (dropWhile is_ws (rev s))"

definition trim :: "string \<Rightarrow> string" where
  "trim s = trimEnd (trimStart s)"

text \<open>\<open>s.indexOf(p)\<close>: the first position at which \<open>p\<close> occurs, \<open>-1\<close> when there is none.\<close>

fun indexOf :: "string \<Rightarrow> string \<Rightarrow> int" where
  "indexOf [] p = (if p = [] then 0 else -1)"
| "indexOf (c # cs) p =
     (if prefix p (c # cs) then 0
      else (let r = indexOf cs p in if r < 0 then -1 else r + 1))"

text \<open>\<open>s.includes(p)\<close>.\<close>

definition js_includes :: "string \<Rightarrow> string \<Rightarrow> bool" where
  "js_includes s p \<longleftrightarrow> indexOf s p \<noteq> -1"

section \<open>utils/string: boyerMooreSearch\<close>

text \<open>The function \<open>boyerMooreSearch(text, pattern, startPos)\<close> of \<open>utils/string\<close>.\<close>

text \<open>
  The preprocessing loop \<open>for (i = 0; i < pattern.length - 1; i++)
  badCharTable.set(pattern[i], pattern.length - 1 - i)\<close>; a later \<open>set\<close> overwrites.
\<close>

definition badCharTable :: "string \<Rightarrow> (char \<rightharpoonup> nat)" where
  "badCharTable pattern =
     fold (\<lambda>i t. t(pattern ! i \<mapsto> length pattern - 1 - i)) [0..<length pattern - 1] Map.empty"

text \<open>
  The inner loop \<open>while (j >= 0 && pattern[j] === text[offset + j]) j--\<close>, started with
  \<open>j = k - 1\<close>; the value returned is the final \<open>j + 1\<close>, so \<open>0\<close> means \<open>j < 0\<close>.
\<close>

fun bm_scan :: "string \<Rightarrow> string \<Rightarrow> int \<Rightarrow> nat \<Rightarrow> nat" where
  "bm_scan text pattern offset 0 = 0"
| "bm_scan text pattern offset (Suc j) =
     (if char_at pattern (int j) = char_at text (offset + int j)
      then bm_scan text pattern offset j else Suc j)"

text \<open>\<open>badCharTable.get(text[offset + j]) || pattern.length\<close>.\<close>

definition badCharShift :: "string \<Rightarrow> string \<Rightarrow> int \<Rightarrow> nat" where
  "badCharShift text pattern i =
     (case char_at text i of
        None \<Rightarrow> length pattern
      | Some c \<Rightarrow> (case badCharTable pattern c of
                    None \<Rightarrow> length pattern
                  | Some s \<Rightarrow> if s = 0 then length pattern else s))"

function bm_loop :: "string \<Rightarrow> string \<Rightarrow> int \<Rightarrow> int" where
  "bm_loop text pattern offset =
     (if offset \<le> int (length text) - int (length pattern) then
        (let j1 = bm_scan text pattern offset (length pattern) in
         if j1 = 0 then offset
         else bm_loop text pattern
                (offset + max 1 (int (badCharShift text pattern (offset + int j1 - 1)))))
      else -1)"
  by pat_completeness auto
termination
  by (relation "measure (\<lambda>(text, pattern, offset).
        nat (int (length text) - int (length pattern) - offset + 1))") auto

declare bm_loop.simps [simp del]

definition boyerMooreSearch :: "string \<Rightarrow> string \<Rightarrow> int \<Rightarrow> int" where
  "boyerMooreSearch text pattern startPos =
     (if length pattern = 0 then startPos
      else if int (length pattern) > int (length text) - startPos then -1
      else bm_loop text pattern startPos)"

section \<open>diff/line-index: LineIndex\<close>

text \<open>
  The class \<open>LineIndex\<close>: its three fields, the constructor's \<open>buildIndex\<close> and the
  methods the matching strategies call.
\<close>

record LineIndex =
  contentToPositions :: "string \<rightharpoonup> nat list"
  lineToOffset :: "nat list"
  lines :: "string list"

text \<open>
  The loop of \<open>buildIndex\<close> over \<open>this.lines\<close>: \<open>i\<close> is the line number, \<open>offset\<close> the
  running offset; the map gets \<open>i\<close> pushed under the trimmed line, the offset table
  gets \<open>offset\<close> stored at index \<open>i\<close> (its current length).
\<close>

fun buildIndex_loop ::
  "string list \<Rightarrow> nat \<Rightarrow> nat \<Rightarrow> (string \<rightharpoonup> nat list) \<Rightarrow> nat list
     \<Rightarrow> (string \<rightharpoonup> nat list) \<times> nat list \<times> nat" where
  "buildIndex_loop [] i offset m offs = (m, offs, offset)"
| "buildIndex_loop (line # rest) i offset m offs =
     buildIndex_loop rest (Suc i) (offset + length line + 1)
       (m(trim line \<mapsto> (case m (trim line) of None \<Rightarrow> [] | Some ps \<Rightarrow> ps) @ [i]))
       (offs @ [offset])"

definition buildIndex :: "string \<Rightarrow> LineIndex" where
  "buildIndex content =
     (let ls = split_nl content in
      case buildIndex_loop ls 0 0 Map.empty [] of
        (m, offs, offset) \<Rightarrow>
          \<lparr>contentToPositions = m, lineToOffset = offs @ [offset], lines = ls\<rparr>)"

definition getPositionsForLine :: "LineIndex \<Rightarrow> string \<Rightarrow> nat list" where
  "getPositionsForLine idx lineContent =
     (case contentToPositions idx (trim lineContent) of None \<Rightarrow> [] | Some ps \<Rightarrow> ps)"

text \<open>\<open>this.lineToOffset[lineNumber] || 0\<close>: an index out of range reads \<open>undefined\<close>.\<close>

definition getOffsetForLine :: "LineIndex \<Rightarrow> nat \<Rightarrow> nat" where
  "getOffsetForLine idx lineNumber =
     (if lineNumber < length (lineToOffset idx) then lineToOffset idx ! lineNumber else 0)"

definition getLineAt :: "LineIndex \<Rightarrow> nat \<Rightarrow> string" where
  "getLineAt idx lineNumber =
     (if lineNumber < length (lines idx) then lines idx ! lineNumber else [])"

definition getLineCount :: "LineIndex \<Rightarrow> nat" where
  "getLineCount idx = length (lines idx)"

definition findPotentialMatches :: "LineIndex \<Rightarrow> string list \<Rightarrow> nat \<Rightarrow> nat list" where
  "findPotentialMatches idx searchLines startLinePos =
     (if length searchLines = 0 then [0]
      else if length searchLines = 1 then
        filter (\<lambda>pos. pos \<ge> startLinePos) (getPositionsForLine idx (searchLines ! 0))
      else
        (let firstLine = trim (searchLines ! 0);
             lastLine = trim (searchLines ! (length searchLines - 1));
             firstLinePositions =
               filter (\<lambda>pos. pos \<ge> startLinePos) (getPositionsForLine idx firstLine)
         in if length firstLinePositions = 0 then []
            else filter (\<lambda>pos.
                   pos + length searchLines - 1 < length (lines idx) \<and>
                   trim (lines idx ! (pos + length searchLines - 1)) = lastLine)
                 firstLinePositions))"

text \<open>
  The constructor is the only way to make a LineIndex and \<open>split\<close> never returns the
  empty array, so \<open>this.lines[this.lines.length - 1]\<close> exists.
\<close>

definition findExactMatch :: "LineIndex \<Rightarrow> string list \<Rightarrow> nat \<Rightarrow> (nat \<times> nat) option" where
  "findExactMatch idx searchLines startLinePos =
     (case find (\<lambda>pos. list_all (\<lambda>i.
                   \<not> (pos + i \<ge> length (lines idx)) \<and>
                   trim (lines idx ! (pos + i)) = trim (searchLines ! i))
                 [0..<length searchLines])
             (findPotentialMatches idx searchLines startLinePos) of
        None \<Rightarrow> None
      | Some pos \<Rightarrow>
          Some (getOffsetForLine idx pos,
                if pos + length searchLines < length (lines idx)
                then getOffsetForLine idx (pos + length searchLines)
                else getOffsetForLine idx (length (lines idx) - 1)
                       + length (lines idx ! (length (lines idx) - 1)) + 1))"

definition shouldUseIndex :: "string \<Rightarrow> bool" where
  "shouldUseIndex content \<longleftrightarrow> length content > 1024 * 1024"

section \<open>diff/matching-strategies\<close>

text \<open>
  The functions \<open>lineTrimmedFallbackMatch\<close> and \<open>blockAnchorFallbackMatch\<close>. Each has
  a branch that uses the line index (\<open>_indexed\<close>), taken when an index is passed and
  the original is above the size threshold, and a branch that scans the lines
  (\<open>_direct\<close>). The result \<open>false\<close> is \<open>None\<close>.
\<close>

text \<open>\<open>if (searchLines[searchLines.length - 1] === "") searchLines.pop()\<close>.\<close>

definition popTrailingEmpty :: "string list \<Rightarrow> string list" where
  "popTrailingEmpty ls = (if length ls > 0 \<and> last ls = [] then butlast ls else ls)"

text \<open>
  With a LineIndex: \<open>for (i = 0; i < getLineCount(); i++) if (getOffsetForLine(i) >=
  startIndex) { startLineNum = i > 0 ? i - 1 : 0; break }\<close>, with \<open>startLineNum\<close> initially 0.
\<close>

definition startLineNum_indexed :: "LineIndex \<Rightarrow> int \<Rightarrow> nat" where
  "startLineNum_indexed idx startIndex =
     (case find (\<lambda>i. int (getOffsetForLine idx i) \<ge> startIndex) [0..<getLineCount idx] of
        None \<Rightarrow> 0
      | Some i \<Rightarrow> if i > 0 then i - 1 else 0)"

text \<open>
  Without one: \<open>while (currentIndex < startIndex && startLineNum < originalLines.length)
  { currentIndex += originalLines[startLineNum].length + 1; startLineNum++ }\<close>.
\<close>

function startLineNum_scan :: "string list \<Rightarrow> int \<Rightarrow> nat \<Rightarrow> nat \<Rightarrow> nat" where
  "startLineNum_scan originalLines startIndex currentIndex startLineNum =
     (if int currentIndex < startIndex \<and> startLineNum < length originalLines
      then startLineNum_scan originalLines startIndex
             (currentIndex + length (originalLines ! startLineNum) + 1) (Suc startLineNum)
      else startLineNum)"
  by pat_completeness auto
termination
  by (relation "measure (\<lambda>(originalLines, startIndex, currentIndex, startLineNum).
        length originalLines - startLineNum)") auto

declare startLineNum_scan.simps [simp del]

text \<open>
  The line numbers of \<open>for (i = startLineNum; i <= originalLines.length -
  searchLines.length; i++)\<close>; the bound is negative when the search has more lines.
\<close>

definition candidateLines :: "nat \<Rightarrow> nat \<Rightarrow> nat \<Rightarrow> nat list" where
  "candidateLines startLineNum n k = (if k \<le> n then [startLineNum..<Suc (n - k)] else [])"

definition lineHashMap :: "string list \<Rightarrow> nat list \<Rightarrow> (string \<rightharpoonup> nat list)" where
  "lineHashMap originalLines is =
     fold (\<lambda>i m. m(trim (originalLines ! i) \<mapsto>
                    (case m (trim (originalLines ! i)) of None \<Rightarrow> [] | Some ps \<Rightarrow> ps) @ [i]))
          is Map.empty"

text \<open>The character offsets of a match of \<open>k\<close> lines at line \<open>pos\<close>, summed line by line.\<close>

definition matchOffsets :: "string list \<Rightarrow> nat \<Rightarrow> nat \<Rightarrow> nat \<times> nat" where
  "matchOffsets originalLines pos k =
     (let matchStartIndex = sum_list (map (\<lambda>j. length (originalLines ! j) + 1) [0..<pos]);
          matchEndIndex = matchStartIndex
             + sum_list (map (\<lambda>j. length (originalLines ! (pos + j)) + 1) [0..<k])
      in (matchStartIndex, matchEndIndex))"

definition lineTrimmed_indexed :: "LineIndex \<Rightarrow> string \<Rightarrow> int \<Rightarrow> (nat \<times> nat) option" where
  "lineTrimmed_indexed idx searchContent startIndex =
     (let searchLines = popTrailingEmpty (split_nl searchContent) in
      if length searchLines = 0 then None
      else findExactMatch idx searchLines (startLineNum_indexed idx startIndex))"

definition lineTrimmed_direct :: "string \<Rightarrow> string \<Rightarrow> int \<Rightarrow> (nat \<times> nat) option" where
  "lineTrimmed_direct originalContent searchContent startIndex =
     (let originalLines = split_nl originalContent;
          searchLines0 = split_nl searchContent in
      if length searchLines0 = 0 \<or> length originalLines = 0 then None
      else
        (let searchLines = (if last searchLines0 = [] then butlast searchLines0 else searchLines0) in
         if length searchLines = 0 then None
         else
           (let startLineNum = startLineNum_scan originalLines startIndex 0 0;
                hm = lineHashMap originalLines
                       (candidateLines startLineNum (length originalLines) (length searchLines));
                firstLineTrimmed = trim (searchLines ! 0);
                firstLinePositions = (case hm firstLineTrimmed of None \<Rightarrow> [] | Some ps \<Rightarrow> ps)
            in if length searchLines > 1 \<and>
                  (length firstLinePositions = 0 \<or>
                   \<not> list_ex (\<lambda>firstPos.
                        firstPos + length searchLines - 1 < length originalLines \<and>
                        trim (originalLines ! (firstPos + length searchLines - 1))
                          = trim (searchLines ! (length searchLines - 1)))
                      firstLinePositions)
               then None
               else
                 (case find (\<lambda>pos. list_all (\<lambda>j.
                              trim (originalLines ! (pos + j)) = trim (searchLines ! j))
                            [0..<length searchLines])
                        firstLinePositions of
                    None \<Rightarrow> None
                  | Some pos \<Rightarrow> Some (matchOffsets originalLines pos (length searchLines))))))"

definition lineTrimmedFallbackMatch ::
  "string \<Rightarrow> string \<Rightarrow> int \<Rightarrow> LineIndex option \<Rightarrow> (nat \<times> nat) option" where
  "lineTrimmedFallbackMatch originalContent searchContent startIndex lineIndex =
     (case lineIndex of
        Some idx \<Rightarrow>
          if shouldUseIndex originalContent
          then lineTrimmed_indexed idx searchContent startIndex
          else lineTrimmed_direct originalContent searchContent startIndex
      | None \<Rightarrow> lineTrimmed_direct originalContent searchContent startIndex)"

definition blockAnchor_indexed :: "LineIndex \<Rightarrow> string \<Rightarrow> int \<Rightarrow> (nat \<times> nat) option" where
  "blockAnchor_indexed idx searchContent startIndex =
     (let searchLines0 = split_nl searchContent in
      if length searchLines0 < 3 then None
      else
        (let searchLines = popTrailingEmpty searchLines0;
             startLineNum = startLineNum_indexed idx startIndex;
             firstLine = trim (searchLines ! 0);
             lastLine = trim (searchLines ! (length searchLines - 1));
             firstLinePositions =
               filter (\<lambda>pos. pos \<ge> startLineNum) (getPositionsForLine idx firstLine)
         in case find (\<lambda>pos.
                   pos + length searchLines - 1 < getLineCount idx \<and>
                   trim (getLineAt idx (pos + length searchLines - 1)) = lastLine)
                 firstLinePositions of
              None \<Rightarrow> None
            | Some pos \<Rightarrow>
                Some (getOffsetForLine idx pos,
                      getOffsetForLine idx (pos + length searchLines - 1 + 1))))"

definition blockAnchor_direct :: "string \<Rightarrow> string \<Rightarrow> int \<Rightarrow> (nat \<times> nat) option" where
  "blockAnchor_direct originalContent searchContent startIndex =
     (let originalLines = split_nl originalContent;
          searchLines0 = split_nl searchContent in
      if length searchLines0 < 3 then None
      else
        (let searchLines = (if last searchLines0 = [] then butlast searchLines0 else searchLines0);
             firstLineSearch = trim (searchLines ! 0);
             lastLineSearch = trim (searchLines ! (length searchLines - 1));
             searchBlockSize = length searchLines;
             startLineNum = startLineNum_scan originalLines startIndex 0 0
         in case find (\<lambda>i.
                   trim (originalLines ! i) = firstLineSearch \<and>
                   trim (originalLines ! (i + searchBlockSize - 1)) = lastLineSearch)
                 (candidateLines startLineNum (length originalLines) searchBlockSize) of
              None \<Rightarrow> None
            | Some i \<Rightarrow> Some (matchOffsets originalLines i searchBlockSize)))"

definition blockAnchorFallbackMatch ::
  "string \<Rightarrow> string \<Rightarrow> int \<Rightarrow> LineIndex option \<Rightarrow> (nat \<times> nat) option" where
  "blockAnchorFallbackMatch originalContent searchContent startIndex lineIndex =
     (case lineIndex of
        Some idx \<Rightarrow>
          if shouldUseIndex originalContent
          then blockAnchor_indexed idx searchContent startIndex
          else blockAnchor_direct originalContent searchContent startIndex
      | None \<Rightarrow> blockAnchor_direct originalContent searchContent startIndex)"

section \<open>utils/string-builder and diff/types\<close>

record StringBuilder =
  chunks :: "string list"
  sb_length :: int

definition sb_new :: StringBuilder where
  "sb_new = \<lparr>chunks = [], sb_length = 0\<rparr>"

definition sb_append :: "StringBuilder \<Rightarrow> string \<Rightarrow> StringBuilder" where
  "sb_append sb str =
     (if length str > 0
      then sb\<lparr>chunks := chunks sb @ [str], sb_length := sb_length sb + int (length str)\<rparr>
      else sb)"

definition sb_appendSlice :: "StringBuilder \<Rightarrow> string \<Rightarrow> int \<Rightarrow> int \<Rightarrow> StringBuilder" where
  "sb_appendSlice sb source start end =
     (if start < end
      then sb\<lparr>chunks := chunks sb @ [js_slice source start end],
              sb_length := sb_length sb + (end - start)\<rparr>
      else sb)"

definition sb_appendLine :: "StringBuilder \<Rightarrow> string \<Rightarrow> StringBuilder" where
  "sb_appendLine sb str = sb_append (sb_append sb str) [NL]"

definition sb_toString :: "StringBuilder \<Rightarrow> string" where
  "sb_toString sb = concat (chunks sb)"

text \<open>The number of matches of \<open>/\n/g\<close> in \<open>content.slice(0, offset)\<close>.\<close>

definition getLineNumberFromOffset :: "string \<Rightarrow> int \<Rightarrow> nat" where
  "getLineNumberFromOffset content offset =
     length (filter (\<lambda>c. c = NL) (js_slice content 0 offset))"

record ChangeRegion =
  startLine :: nat
  endLine :: nat
  startOffset :: int
  endOffset :: int

record FileChangeResult =
  content :: string
  changedRegions :: "ChangeRegion list"

section \<open>diff/processor: constructNewFileContent\<close>

text \<open>
  The function \<open>constructNewFileContent(diffContent, originalContent, isFinal)\<close>: its
  local variables as a record, one definition for each branch of the loop body, the
  loop, and the call.
\<close>

definition SEARCH_MARKER :: string where
  "SEARCH_MARKER = ''<<<<<<< SEARCH''"

definition SEPARATOR_MARKER :: string where
  "SEPARATOR_MARKER = ''=======''"

definition REPLACE_MARKER :: string where
  "REPLACE_MARKER = ''>>>>>>> REPLACE''"

text \<open>The call either returns a result or throws an \<open>Error\<close> with a message.\<close>

datatype error = Error string

text \<open>
  The template \<open>`The SEARCH block:\n${...}\n...does not match anything in the file.`\<close>
  around the reported search content, and the message thrown, which fills it with
  \<open>currentSearchContent.trimEnd()\<close>.
\<close>

definition searchBlockMessage :: "string \<Rightarrow> string" where
  "searchBlockMessage reported =
     ''The SEARCH block:'' @ [NL] @ reported @ [NL]
       @ ''...does not match anything in the file.''"

definition noMatchMessage :: "string \<Rightarrow> string" where
  "noMatchMessage sc = searchBlockMessage (trimEnd sc)"

text \<open>
  The local variables of the call. \<open>regions\<close> is the local \<open>changedRegions\<close>; the
  indices hold \<open>-1\<close> while unset.
\<close>

record ProcState =
  result :: StringBuilder
  lastProcessedIndex :: int
  regions :: "ChangeRegion list"
  resultLength :: int
  searchSegments :: "string list"
  replaceSegments :: "string list"
  inSearch :: bool
  inReplace :: bool
  searchMatchIndex :: int
  searchEndIndex :: int
  replacementStartOffset :: int

definition initState :: ProcState where
  "initState =
     \<lparr>result = sb_new, lastProcessedIndex = 0, regions = [], resultLength = 0,
      searchSegments = [], replaceSegments = [], inSearch = False, inReplace = False,
      searchMatchIndex = -1, searchEndIndex = -1, replacementStartOffset = -1\<rparr>"

text \<open>One iteration of the loop either goes on with the next line or returns from the call.\<close>

datatype step = Continue ProcState | Finished FileChangeResult

text \<open>
  The three matching strategies in their order, for a non-empty search content; the
  result is the pair \<open>(searchMatchIndex, searchEndIndex)\<close>.
\<close>

definition locateSearch ::
  "string \<Rightarrow> string \<Rightarrow> int \<Rightarrow> LineIndex option \<Rightarrow> error + (int \<times> int)" where
  "locateSearch originalContent currentSearchContent cursor lineIndex =
     (let exactIndex = boyerMooreSearch originalContent currentSearchContent cursor in
      if exactIndex \<noteq> -1 then Inr (exactIndex, exactIndex + int (length currentSearchContent))
      else
        (case lineTrimmedFallbackMatch originalContent currentSearchContent cursor lineIndex of
           Some (s, e) \<Rightarrow> Inr (int s, int e)
         | None \<Rightarrow>
             (case blockAnchorFallbackMatch originalContent currentSearchContent cursor lineIndex of
                Some (s, e) \<Rightarrow> Inr (int s, int e)
              | None \<Rightarrow> Inl (Error (noMatchMessage currentSearchContent)))))"

text \<open>\<open>searchSegments.join("\n")\<close>, plus a newline when there are segments.\<close>

definition currentSearchContent :: "string list \<Rightarrow> string" where
  "currentSearchContent segs =
     (if length segs > 0 then join_nl segs @ [NL] else join_nl segs)"

text \<open>
  The match of a block when \<open>=======\<close> is read: an empty search content matches the
  whole original (nothing, when the original is empty), any other is located.
\<close>

definition searchRange ::
  "string \<Rightarrow> LineIndex option \<Rightarrow> int \<Rightarrow> string \<Rightarrow> error + (int \<times> int)" where
  "searchRange originalContent lineIndex cursor sc =
     (if sc = [] then
        (if length originalContent = 0 then Inr (0, 0)
         else Inr (0, int (length originalContent)))
      else locateSearch originalContent sc cursor lineIndex)"

text \<open>The branch \<open>line === "<<<<<<< SEARCH"\<close>.\<close>

definition onSearchMarker :: "ProcState \<Rightarrow> ProcState" where
  "onSearchMarker st =
     (let st1 = (if inSearch st \<or> inReplace st
                 then st\<lparr>inSearch := False, inReplace := False,
                         searchSegments := [], replaceSegments := []\<rparr>
                 else st)
      in st1\<lparr>inSearch := True\<rparr>)"

text \<open>The branch \<open>line === "======="\<close>.\<close>

definition onSeparator ::
  "string \<Rightarrow> LineIndex option \<Rightarrow> ProcState \<Rightarrow> error + ProcState" where
  "onSeparator originalContent lineIndex st =
     (let st1 = st\<lparr>inSearch := False, inReplace := True\<rparr>;
          sc = currentSearchContent (searchSegments st1)
      in case searchRange originalContent lineIndex (lastProcessedIndex st1) sc of
           Inl e \<Rightarrow> Inl e
         | Inr (ms, me) \<Rightarrow>
             (let st2 = st1\<lparr>searchMatchIndex := ms, searchEndIndex := me\<rparr>;
                  st3 = (if searchMatchIndex st2 > lastProcessedIndex st2
                         then st2\<lparr>result := sb_appendSlice (result st2) originalContent
                                              (lastProcessedIndex st2) (searchMatchIndex st2),
                                  resultLength := resultLength st2
                                     + (searchMatchIndex st2 - lastProcessedIndex st2)\<rparr>
                         else st2)
              in Inr (st3\<lparr>replacementStartOffset := resultLength st3\<rparr>)))"

text \<open>
  What both early exits and the end of the call return when the chunk is final: the
  rest of the original from \<open>lastProcessedIndex\<close> on is appended.
\<close>

definition appendRemaining :: "string \<Rightarrow> ProcState \<Rightarrow> StringBuilder" where
  "appendRemaining originalContent st =
     (if lastProcessedIndex st < int (length originalContent)
      then sb_appendSlice (result st) originalContent (lastProcessedIndex st)
             (int (length originalContent))
      else result st)"

text \<open>
  The early-exit test after a block is closed:
  \<open>!diffContent.slice(diffContent.indexOf(line) + line.length).includes("<<<<<<< SEARCH")\<close>.
\<close>

definition noFurtherSearch :: "string \<Rightarrow> string \<Rightarrow> bool" where
  "noFurtherSearch diffContent line \<longleftrightarrow>
     \<not> js_includes
         (js_slice diffContent (indexOf diffContent line + int (length line))
            (int (length diffContent)))
         SEARCH_MARKER"

text \<open>The branch \<open>line === ">>>>>>> REPLACE"\<close>.\<close>

definition onReplaceMarker :: "string \<Rightarrow> string \<Rightarrow> bool \<Rightarrow> string \<Rightarrow> ProcState \<Rightarrow> step" where
  "onReplaceMarker diffContent originalContent isFinal line st =
     (let replacementEndOffset = resultLength st;
          st1 = (if searchMatchIndex st \<noteq> -1 \<and> replacementStartOffset st \<noteq> -1
                 then st\<lparr>regions := regions st @
                        [\<lparr>startLine = getLineNumberFromOffset (sb_toString (result st))
                                        (replacementStartOffset st),
                          endLine = getLineNumberFromOffset (sb_toString (result st))
                                        replacementEndOffset,
                          startOffset = replacementStartOffset st,
                          endOffset = replacementEndOffset\<rparr>]\<rparr>
                 else st);
          st2 = st1\<lparr>lastProcessedIndex := searchEndIndex st1,
                    inSearch := False, inReplace := False,
                    searchSegments := [], replaceSegments := [],
                    searchMatchIndex := -1, searchEndIndex := -1,
                    replacementStartOffset := -1\<rparr>
      in if isFinal \<and> noFurtherSearch diffContent line
         then Finished \<lparr>content = sb_toString (appendRemaining originalContent st2),
                        changedRegions = regions st2\<rparr>
         else Continue st2)"

text \<open>The last branch: a line that is none of the markers.\<close>

definition onContentLine :: "string \<Rightarrow> ProcState \<Rightarrow> ProcState" where
  "onContentLine line st =
     (if inSearch st then st\<lparr>searchSegments := searchSegments st @ [line]\<rparr>
      else if inReplace st then
        (let st1 = st\<lparr>replaceSegments := replaceSegments st @ [line]\<rparr> in
         if searchMatchIndex st1 \<noteq> -1
         then st1\<lparr>result := sb_appendLine (result st1) line,
                  resultLength := resultLength st1 + int (length line) + 1\<rparr>
         else st1)
      else st)"

text \<open>The body of \<open>for (const line of lines)\<close>.\<close>

definition processLine ::
  "string \<Rightarrow> string \<Rightarrow> bool \<Rightarrow> LineIndex option \<Rightarrow> string \<Rightarrow> ProcState \<Rightarrow> error + step" where
  "processLine diffContent originalContent isFinal lineIndex line st =
     (if line = SEARCH_MARKER then Inr (Continue (onSearchMarker st))
      else if line = SEPARATOR_MARKER then
        (case onSeparator originalContent lineIndex st of
           Inl e \<Rightarrow> Inl e
         | Inr st' \<Rightarrow> Inr (Continue st'))
      else if line = REPLACE_MARKER then
        Inr (onReplaceMarker diffContent originalContent isFinal line st)
      else Inr (Continue (onContentLine line st)))"

text \<open>The loop, and after it the final append and the return.\<close>

fun processLines ::
  "string \<Rightarrow> string \<Rightarrow> bool \<Rightarrow> LineIndex option \<Rightarrow> string list \<Rightarrow> ProcState
     \<Rightarrow> error + FileChangeResult" where
  "processLines diffContent originalContent isFinal lineIndex [] st =
     Inr \<lparr>content = sb_toString (if isFinal then appendRemaining originalContent st
                                  else result st),
          changedRegions = regions st\<rparr>"
| "processLines diffContent originalContent isFinal lineIndex (line # rest) st =
     (case processLine diffContent originalContent isFinal lineIndex line st of
        Inl e \<Rightarrow> Inl e
      | Inr (Finished r) \<Rightarrow> Inr r
      | Inr (Continue st') \<Rightarrow>
          processLines diffContent originalContent isFinal lineIndex rest st')"

text \<open>
  \<open>lines.pop()\<close> when the last line looks like a partial marker: it starts with one of
  \<open><\<close>, \<open>=\<close>, \<open>>\<close> and is none of the three markers.
\<close>

definition stripPartialMarker :: "string list \<Rightarrow> string list" where
  "stripPartialMarker ls =
     (let lastLine = last ls in
      if length ls > 0 \<and>
         (prefix ''<'' lastLine \<or> prefix ''='' lastLine \<or> prefix ''>'' lastLine) \<and>
         lastLine \<noteq> SEARCH_MARKER \<and> lastLine \<noteq> SEPARATOR_MARKER \<and> lastLine \<noteq> REPLACE_MARKER
      then butlast ls else ls)"

text \<open>\<open>isLargeFile ? new LineIndex(originalContent) : undefined\<close>.\<close>

definition lineIndexFor :: "string \<Rightarrow> LineIndex option" where
  "lineIndexFor originalContent =
     (if shouldUseIndex originalContent then Some (buildIndex originalContent) else None)"

definition constructNewFileContent :: "string \<Rightarrow> string \<Rightarrow> bool \<Rightarrow> error + FileChangeResult" where
  "constructNewFileContent diffContent originalContent isFinal =
     (let lineIndex = lineIndexFor originalContent;
          ls = stripPartialMarker (split_nl diffContent)
      in if isFinal \<and> \<not> js_includes diffContent SEARCH_MARKER
         then Inr \<lparr>content = sb_toString (appendRemaining originalContent initState),
                   changedRegions = regions initState\<rparr>
         else processLines diffContent originalContent isFinal lineIndex ls initState)"

section \<open>Diffs made of complete blocks\<close>

text \<open>
  A line of a block body: none of the three markers, and a line (no newline in it).
\<close>

definition isContentLine :: "string \<Rightarrow> bool" where
  "isContentLine l \<longleftrightarrow>
     l \<noteq> SEARCH_MARKER \<and> l \<noteq> SEPARATOR_MARKER \<and> l \<noteq> REPLACE_MARKER \<and> NL \<notin> set l"

text \<open>
  A line outside the bodies of the complete blocks: any line but \<open>=======\<close> and
  \<open>>>>>>>> REPLACE\<close>. A \<open><<<<<<< SEARCH\<close> line there opens a block that is abandoned
  in its search body, by the next \<open><<<<<<< SEARCH\<close> line or by the end of the diff.
\<close>

definition isOutsideLine :: "string \<Rightarrow> bool" where
  "isOutsideLine l \<longleftrightarrow> l \<noteq> SEPARATOR_MARKER \<and> l \<noteq> REPLACE_MARKER \<and> NL \<notin> set l"

text \<open>
  A complete block: the lines before it that belong to no complete block, the search
  body and the replace body.
\<close>

record DiffBlock =
  leading :: "string list"
  searchBody :: "string list"
  replaceBody :: "string list"

definition wellFormedBlock :: "DiffBlock \<Rightarrow> bool" where
  "wellFormedBlock b \<longleftrightarrow>
     list_all isOutsideLine (leading b) \<and> list_all isContentLine (searchBody b) \<and>
     list_all isContentLine (replaceBody b)"

definition blockLines :: "DiffBlock \<Rightarrow> string list" where
  "blockLines b =
     leading b @ [SEARCH_MARKER] @ searchBody b @ [SEPARATOR_MARKER] @ replaceBody b
       @ [REPLACE_MARKER]"

text \<open>The diff text of a sequence of blocks followed by trailing lines.\<close>

definition diffOfBlocks :: "DiffBlock list \<Rightarrow> string list \<Rightarrow> string" where
  "diffOfBlocks bs trailer = join_nl (concat (map blockLines bs) @ trailer)"

text \<open>The replacement a block writes: each replace line followed by a newline.\<close>

definition replacementText :: "string list \<Rightarrow> string" where
  "replacementText rs = concat (map (\<lambda>l. l @ [NL]) rs)"



text \<open>The state of the loop between two blocks.\<close>

definition idleState :: "StringBuilder \<Rightarrow> int \<Rightarrow> ChangeRegion list \<Rightarrow> int \<Rightarrow> ProcState" where
  "idleState r c rg rl =
     \<lparr>result = r, lastProcessedIndex = c, regions = rg, resultLength = rl,
      searchSegments = [], replaceSegments = [], inSearch = False, inReplace = False,
      searchMatchIndex = -1, searchEndIndex = -1, replacementStartOffset = -1\<rparr>"

text \<open>
  The states of the loop outside the bodies of the complete blocks: idle, or in the
  search body of a block that will be abandoned.
\<close>

definition outsideState ::
  "StringBuilder \<Rightarrow> int \<Rightarrow> ChangeRegion list \<Rightarrow> int \<Rightarrow> ProcState \<Rightarrow> bool" where
  "outsideState r c rg rl st \<longleftrightarrow>
     st = (idleState r c rg rl)\<lparr>inSearch := inSearch st, searchSegments := searchSegments st\<rparr>
     \<and> (inSearch st \<or> searchSegments st = [])"

text \<open>
  A large original, above the size threshold of the line index: two lines \<open>a\<close> and a
  last line of \<open>2^20\<close> letters \<open>z\<close>.
\<close>

definition zLine :: string where
  "zLine = replicate (1024 * 1024) (CHR ''z'')"

definition bigOriginal :: string where
  "bigOriginal = ''a'' @ [NL] @ ''a'' @ [NL] @ zLine"

text \<open>The pattern occurs in the text at index \<open>i\<close>.\<close>

definition occurs_at :: "string \<Rightarrow> string \<Rightarrow> int \<Rightarrow> bool" where
  "occurs_at text pattern i \<longleftrightarrow>
     0 \<le> i \<and> i + int (length pattern) \<le> int (length text) \<and>
     take (length pattern) (drop (nat i) text) = pattern"

section \<open>The exact-match step\<close>

text \<open>
  What the search does guarantee: an empty pattern returns the cursor, and an index it
  returns for a non-empty pattern is an occurrence of the pattern.
\<close>

lemma bm_scan_zero:
  "bm_scan t p off k = 0 \<Longrightarrow> j < k \<Longrightarrow> char_at p (int j) = char_at t (off + int j)"
proof (induction k)
  case 0
  then show ?case by simp
next
  case (Suc k)
  then show ?case by (cases "j = k") (auto split: if_splits)
qed

lemma scan_zero_occurs:
  assumes "0 \<le> off" "off \<le> int (length t) - int (length p)" "bm_scan t p off (length p) = 0"
  shows "occurs_at t p off"
proof -
  have len: "length (take (length p) (drop (nat off) t)) = length p"
    using assms(1,2) by simp
  have "take (length p) (drop (nat off) t) = p"
  proof (rule nth_equalityI[OF len])
    fix j assume "j < length (take (length p) (drop (nat off) t))"
    with len have j: "j < length p" by simp
    from bm_scan_zero[OF assms(3) j] j assms(1,2)
    have "p ! j = t ! (nat off + j)"
      by (auto simp: char_at_def nat_add_distrib split: if_splits)
    with j assms(1,2) show "take (length p) (drop (nat off) t) ! j = p ! j" by simp
  qed
  with assms(1,2) show ?thesis by (simp add: occurs_at_def)
qed

lemma bm_loop_sound:
  "0 \<le> off \<Longrightarrow> bm_loop t p off \<noteq> -1 \<Longrightarrow> occurs_at t p (bm_loop t p off)"
proof (induction t p off rule: bm_loop.induct)
  case (1 t p off)
  show ?case
  proof (cases "off \<le> int (length t) - int (length p)")
    case False
    then have "bm_loop t p off = -1" by (subst bm_loop.simps) simp
    with "1.prems" show ?thesis by simp
  next
    case True
    show ?thesis
    proof (cases "bm_scan t p off (length p) = 0")
      case z: True
      with True have "bm_loop t p off = off" by (subst bm_loop.simps) simp
      with scan_zero_occurs[OF "1.prems"(1) True z] show ?thesis by simp
    next
      case nz: False
      let ?off' = "off + max 1 (int (badCharShift t p (off + int (bm_scan t p off (length p)) - 1)))"
      have eq: "bm_loop t p off = bm_loop t p ?off'"
        using True nz by (subst bm_loop.simps) (simp add: Let_def)
      have "occurs_at t p (bm_loop t p ?off')"
        using True nz "1.prems" by (intro "1.IH"[OF _ refl]) (simp_all add: eq)
      then show ?thesis by (simp only: eq)
    qed
  qed
qed

lemma boyerMooreSearch_sound:
  assumes "0 \<le> c" "p \<noteq> []" "boyerMooreSearch t p c \<noteq> -1"
  shows "occurs_at t p (boyerMooreSearch t p c)"
proof -
  from assms(2,3) have "boyerMooreSearch t p c = bm_loop t p c"
    by (auto simp: boyerMooreSearch_def split: if_splits)
  with bm_loop_sound[OF assms(1), of t p] assms(3) show ?thesis by simp
qed

lemma boyerMooreSearch_empty_pattern: "boyerMooreSearch t [] c = c"
  by (simp add: boyerMooreSearch_def)

text \<open>
  C2. boyerMooreSearch is claimed to return the smallest index at or after the cursor at
  which the pattern occurs. On the text "baa" with the pattern "aa" and cursor 0 the
  pattern occurs at index 1, and the search returns -1: after the mismatch at j = 0 the
  shift is looked up for the mismatched character 'b', which gives the whole pattern
  length 2 and steps over the occurrence.
\<close>

theorem boyerMooreSearch_misses_occurrence:
  "boyerMooreSearch ''baa'' ''aa'' 0 = -1 \<and> occurs_at ''baa'' ''aa'' 1"
  by code_simp

section \<open>Lines that are no markers\<close>

lemma onContentLine_idle:
  "\<not> inSearch st \<Longrightarrow> \<not> inReplace st \<Longrightarrow> onContentLine line st = st"
  by (simp add: onContentLine_def)

lemma processLine_content:
  "line \<noteq> SEARCH_MARKER \<Longrightarrow> line \<noteq> SEPARATOR_MARKER \<Longrightarrow> line \<noteq> REPLACE_MARKER \<Longrightarrow>
   processLine d orig fin idx line st = Inr (Continue (onContentLine line st))"
  by (simp add: processLine_def)

lemma processLines_idle_noise:
  assumes "\<not> inSearch st" "\<not> inReplace st"
    and "\<forall>l \<in> set ns. l \<noteq> SEARCH_MARKER \<and> l \<noteq> SEPARATOR_MARKER \<and> l \<noteq> REPLACE_MARKER"
  shows "processLines d orig fin idx (ns @ rest) st = processLines d orig fin idx rest st"
  using assms
  by (induction ns) (simp_all add: processLine_content onContentLine_idle)

lemma set_stripPartialMarker: "set (stripPartialMarker ls) \<subseteq> set ls"
  by (auto simp: stripPartialMarker_def Let_def dest: in_set_butlastD)

text \<open>Below the size threshold no line index is built.\<close>

lemma constructNewFileContent_small:
  "length originalContent \<le> 1048576 \<Longrightarrow>
   constructNewFileContent diffContent originalContent isFinal =
     (if isFinal \<and> \<not> js_includes diffContent SEARCH_MARKER
      then Inr \<lparr>content = sb_toString (appendRemaining originalContent initState),
                changedRegions = regions initState\<rparr>
      else processLines diffContent originalContent isFinal None
             (stripPartialMarker (split_nl diffContent)) initState)"
  by (simp add: constructNewFileContent_def lineIndexFor_def shouldUseIndex_def)

section \<open>Non-final chunks without markers\<close>

text \<open>
  C10. For every original content and every diff chunk none of whose lines is a marker
  line, the call with isFinal = false returns the empty content and no changed region:
  the original is not echoed back on a non-final call.
\<close>

theorem no_markers_nonfinal_empty:
  assumes "\<forall>l \<in> set (split_nl diffContent).
             l \<noteq> SEARCH_MARKER \<and> l \<noteq> SEPARATOR_MARKER \<and> l \<noteq> REPLACE_MARKER"
  shows "constructNewFileContent diffContent originalContent False
           = Inr \<lparr>content = [], changedRegions = []\<rparr>"
proof -
  let ?ls = "stripPartialMarker (split_nl diffContent)"
  have "\<forall>l \<in> set ?ls. l \<noteq> SEARCH_MARKER \<and> l \<noteq> SEPARATOR_MARKER \<and> l \<noteq> REPLACE_MARKER"
    using assms set_stripPartialMarker by blast
  then have "processLines diffContent originalContent False (lineIndexFor originalContent)
               (?ls @ []) initState
             = processLines diffContent originalContent False (lineIndexFor originalContent)
               [] initState"
    by (intro processLines_idle_noise) (simp_all add: initState_def)
  then show ?thesis
    by (simp add: constructNewFileContent_def Let_def initState_def sb_new_def sb_toString_def)
qed

text \<open>The chunk "hello\n<<<<" over the original "abc": its last line is a partial marker.\<close>

theorem no_markers_nonfinal_empty_witness:
  "constructNewFileContent (''hello'' @ [NL] @ ''<<<<'') ''abc'' False
           = Inr \<lparr>content = [], changedRegions = []\<rparr>"
proof -
  have h: "\<forall>l \<in> set (split_nl (''hello'' @ [NL] @ ''<<<<'')).
             l \<noteq> SEARCH_MARKER \<and> l \<noteq> SEPARATOR_MARKER \<and> l \<noteq> REPLACE_MARKER"
    by (simp add: SEARCH_MARKER_def SEPARATOR_MARKER_def REPLACE_MARKER_def)
  from no_markers_nonfinal_empty[OF h] show ?thesis .
qed

section \<open>The three-line guard of the block anchor match\<close>

text \<open>
  What the guard does exclude: a search content that splits into fewer than three
  pieces, which for the contents the processor passes is a body of at most one line.
\<close>

lemma blockAnchor_guard:
  "length (split_nl searchContent) < 3 \<Longrightarrow>
   blockAnchorFallbackMatch originalContent searchContent startIndex lineIndex = None"
  by (cases lineIndex)
     (simp_all add: blockAnchorFallbackMatch_def blockAnchor_indexed_def blockAnchor_direct_def)

text \<open>
  C7. blockAnchorFallbackMatch is claimed to return no match for every search content
  whose body has fewer than 3 lines. The guard counts the pieces of
  \<open>searchContent.split("\n")\<close> before the trailing empty piece is dropped, so the body of
  the two lines "a" and "b", which the processor passes as "a\nb\n", splits into 3
  pieces, passes the guard and is matched on its two anchors: on the original "a\nb\n"
  the result is the range (0, 4).
\<close>

theorem blockAnchor_two_line_body:
  "blockAnchorFallbackMatch (''a'' @ [NL] @ ''b'' @ [NL]) (currentSearchContent [''a'', ''b'']) 0 None
     = Some (0, 4)"
  by code_simp

section \<open>The offset table of the line index\<close>

text \<open>
  The table holds the offset of the first character of every line, followed by one
  last entry, which is the length of the content plus one.
\<close>

lemma split_nl_nonempty: "split_nl s \<noteq> []"
  by (induction s) (auto split: list.splits)

lemma split_nl_total_length:
  "sum_list (map (\<lambda>l. length l + 1) (split_nl s)) = length s + 1"
proof (induction s)
  case Nil
  then show ?case by simp
next
  case (Cons c cs)
  then show ?case
    using split_nl_nonempty[of cs] by (cases "split_nl cs") auto
qed

lemma buildIndex_loop_offsets:
  "buildIndex_loop ls i off m offs = (m', offs', off') \<Longrightarrow>
   offs' = offs @ map (\<lambda>k. off + sum_list (map (\<lambda>l. length l + 1) (take k ls))) [0..<length ls]
   \<and> off' = off + sum_list (map (\<lambda>l. length l + 1) ls)"
proof (induction ls arbitrary: i off m offs)
  case Nil
  then show ?case by simp
next
  case (Cons l ls)
  from Cons.prems have
    "buildIndex_loop ls (Suc i) (off + length l + 1)
       (m(trim l \<mapsto> (case m (trim l) of None \<Rightarrow> [] | Some ps \<Rightarrow> ps) @ [i])) (offs @ [off])
     = (m', offs', off')" by simp
  from Cons.IH[OF this] show ?case
    by (simp add: upt_conv_Cons map_Suc_upt[symmetric] add.assoc del: upt_Suc)
qed

lemma lineToOffset_buildIndex:
  "lineToOffset (buildIndex c) =
     map (\<lambda>k. sum_list (map (\<lambda>l. length l + 1) (take k (split_nl c))))
         [0..<length (split_nl c)]
     @ [length c + 1]"
proof -
  obtain m' offs' off' where b: "buildIndex_loop (split_nl c) 0 0 Map.empty [] = (m', offs', off')"
    by (cases "buildIndex_loop (split_nl c) 0 0 Map.empty []") auto
  from buildIndex_loop_offsets[OF b] split_nl_total_length[of c] show ?thesis
    by (simp add: buildIndex_def b Let_def)
qed

lemma lines_buildIndex: "lines (buildIndex c) = split_nl c"
  by (simp add: buildIndex_def Let_def split: prod.splits)

lemma final_offset_buildIndex:
  "getOffsetForLine (buildIndex c) (getLineCount (buildIndex c)) = length c + 1"
  by (simp add: getOffsetForLine_def getLineCount_def lines_buildIndex lineToOffset_buildIndex
      nth_append)

text \<open>
  C8. The last entry of lineToOffset is claimed to be the length of the content. The
  loop adds length + 1 for every line, the last one included, so the entry is the
  length of the content plus one: for the content "ab" (one line, length 2) the table
  is [0, 3].
\<close>

theorem lineIndex_final_offset:
  "lines (buildIndex ''ab'') = [''ab''] \<and> lineToOffset (buildIndex ''ab'') = [0, 3] \<and>
   getOffsetForLine (buildIndex ''ab'') (getLineCount (buildIndex ''ab'')) = 3 \<and> length ''ab'' = 2"
  by code_simp

section \<open>A REPLACE marker in the search state\<close>

text \<open>
  C4. A \<open>>>>>>>> REPLACE\<close> line read in the search state is claimed to leave the cursor
  unchanged and the result as if the malformed block were absent. The branch assigns
  \<open>lastProcessedIndex = searchEndIndex\<close> without the guard it applies to the change
  region, and searchEndIndex is -1 there: the cursor becomes -1, and the final append
  \<open>original.slice(-1, length)\<close> returns only the last character of the original. For
  the original "hello" the diff "<<<<<<< SEARCH\nfoo\n>>>>>>> REPLACE\n" gives the
  content "o"; without the malformed block the content is "hello".
\<close>

theorem replace_marker_in_search_state:
  "processLine d ''hello'' False None REPLACE_MARKER
       (onContentLine ''foo'' (onSearchMarker initState))
     = Inr (Continue (initState\<lparr>lastProcessedIndex := -1\<rparr>)) \<and>
   constructNewFileContent
       (''<<<<<<< SEARCH'' @ [NL] @ ''foo'' @ [NL] @ ''>>>>>>> REPLACE'' @ [NL]) ''hello'' True
     = Inr \<lparr>content = ''o'', changedRegions = []\<rparr> \<and>
   constructNewFileContent [] ''hello'' True = Inr \<lparr>content = ''hello'', changedRegions = []\<rparr>"
proof -
  have 1: "processLine d ''hello'' False None REPLACE_MARKER
       (onContentLine ''foo'' (onSearchMarker initState))
     = Inr (Continue (initState\<lparr>lastProcessedIndex := -1\<rparr>))"
    by (simp add: processLine_def onReplaceMarker_def onContentLine_def onSearchMarker_def
        initState_def SEARCH_MARKER_def SEPARATOR_MARKER_def REPLACE_MARKER_def)
  let ?d = "''<<<<<<< SEARCH'' @ [NL] @ ''foo'' @ [NL] @ ''>>>>>>> REPLACE'' @ [NL]"
  have "constructNewFileContent ?d ''hello'' True =
     (if True \<and> \<not> js_includes ?d SEARCH_MARKER
      then Inr \<lparr>content = sb_toString (appendRemaining ''hello'' initState),
                changedRegions = regions initState\<rparr>
      else processLines ?d ''hello'' True None (stripPartialMarker (split_nl ?d)) initState)"
    by (rule constructNewFileContent_small) simp
  also have "\<dots> = Inr \<lparr>content = ''o'', changedRegions = []\<rparr>"
    by code_simp
  finally have 2: "constructNewFileContent ?d ''hello'' True
     = Inr \<lparr>content = ''o'', changedRegions = []\<rparr>" .
  have "constructNewFileContent [] ''hello'' True =
     (if True \<and> \<not> js_includes [] SEARCH_MARKER
      then Inr \<lparr>content = sb_toString (appendRemaining ''hello'' initState),
                changedRegions = regions initState\<rparr>
      else processLines [] ''hello'' True None (stripPartialMarker (split_nl [])) initState)"
    by (rule constructNewFileContent_small) simp
  also have "\<dots> = Inr \<lparr>content = ''hello'', changedRegions = []\<rparr>"
    by code_simp
  finally have 3: "constructNewFileContent [] ''hello'' True
     = Inr \<lparr>content = ''hello'', changedRegions = []\<rparr>" .
  from 1 2 3 show ?thesis by blast
qed

section \<open>The error of a block that matches nowhere\<close>

lemma trimEnd_newline: "trimEnd (s @ [NL]) = trimEnd s"
  by (simp add: trimEnd_def is_ws_def)

lemma processLines_separator:
  "processLines d orig fin idx (SEPARATOR_MARKER # rest) st =
     (case onSeparator orig idx st of
        Inl e \<Rightarrow> Inl e
      | Inr st' \<Rightarrow> processLines d orig fin idx rest st')"
  by (simp add: processLine_def SEARCH_MARKER_def SEPARATOR_MARKER_def split: sum.splits)

text \<open>
  The search body "foo " (with a trailing blank) over the original "abc": the message
  reports "foo", not the body "foo " with only its newline removed.
\<close>

theorem no_match_counterexample:
  "constructNewFileContent
      (join_nl [SEARCH_MARKER, ''foo '', SEPARATOR_MARKER, ''x'', REPLACE_MARKER]) ''abc'' True
     = Inl (Error (searchBlockMessage ''foo'')) \<and>
   constructNewFileContent
      (join_nl [SEARCH_MARKER, ''foo '', SEPARATOR_MARKER, ''x'', REPLACE_MARKER]) ''abc'' True
     \<noteq> Inl (Error (searchBlockMessage (join_nl [''foo ''])))"
proof -
  let ?d = "join_nl [SEARCH_MARKER, ''foo '', SEPARATOR_MARKER, ''x'', REPLACE_MARKER]"
  have "constructNewFileContent ?d ''abc'' True =
     (if True \<and> \<not> js_includes ?d SEARCH_MARKER
      then Inr \<lparr>content = sb_toString (appendRemaining ''abc'' initState),
                changedRegions = regions initState\<rparr>
      else processLines ?d ''abc'' True None (stripPartialMarker (split_nl ?d)) initState)"
    by (rule constructNewFileContent_small) simp
  also have "\<dots> = Inl (Error (searchBlockMessage ''foo''))"
    by code_simp
  finally have 1: "constructNewFileContent ?d ''abc'' True = Inl (Error (searchBlockMessage ''foo''))" .
  have 2: "searchBlockMessage ''foo'' \<noteq> searchBlockMessage (join_nl [''foo ''])"
    by (simp add: searchBlockMessage_def)
  from 1 2 show ?thesis by simp
qed

text \<open>
  C5 (amended). Whenever the loop reads \<open>=======\<close> with a non-empty list of search
  segments and the exact, line-trimmed and block-anchor matches all fail from the
  cursor, the call fails, and the search content reported in the error is the
  accumulated search body with all its trailing white space trimmed (trimEnd), not
  only the single newline the processor appended.
\<close>

theorem no_match_fails_call:
  assumes "searchSegments st \<noteq> []"
    and "boyerMooreSearch originalContent (currentSearchContent (searchSegments st))
           (lastProcessedIndex st) = -1"
    and "lineTrimmedFallbackMatch originalContent (currentSearchContent (searchSegments st))
           (lastProcessedIndex st) lineIndex = None"
    and "blockAnchorFallbackMatch originalContent (currentSearchContent (searchSegments st))
           (lastProcessedIndex st) lineIndex = None"
  shows "processLines diffContent originalContent isFinal lineIndex (SEPARATOR_MARKER # rest) st
           = Inl (Error (searchBlockMessage (trimEnd (join_nl (searchSegments st)))))"
proof -
  let ?sc = "currentSearchContent (searchSegments st)"
  from assms(1) have sc: "?sc = join_nl (searchSegments st) @ [NL]"
    by (simp add: currentSearchContent_def)
  then have ne: "?sc \<noteq> []" by simp
  have "locateSearch originalContent ?sc (lastProcessedIndex st) lineIndex
          = Inl (Error (noMatchMessage ?sc))"
    using assms(2-4) by (simp add: locateSearch_def)
  with ne have "searchRange originalContent lineIndex (lastProcessedIndex st) ?sc
          = Inl (Error (noMatchMessage ?sc))"
    by (simp add: searchRange_def)
  then have "onSeparator originalContent lineIndex st = Inl (Error (noMatchMessage ?sc))"
    by (simp add: onSeparator_def Let_def)
  moreover have "noMatchMessage ?sc = searchBlockMessage (trimEnd (join_nl (searchSegments st)))"
    by (simp add: noMatchMessage_def sc trimEnd_newline)
  ultimately show ?thesis
    by (subst processLines_separator) simp
qed

text \<open>The state after "<<<<<<< SEARCH" and "foo ", over the original "abc".\<close>

theorem no_match_fails_call_witness:
  "processLines (join_nl [SEARCH_MARKER, ''foo '', SEPARATOR_MARKER, ''x'', REPLACE_MARKER])
      ''abc'' True None [SEPARATOR_MARKER, ''x'', REPLACE_MARKER]
      (onContentLine ''foo '' (onSearchMarker initState))
     = Inl (Error (searchBlockMessage ''foo''))"
proof -
  let ?st = "onContentLine ''foo '' (onSearchMarker initState)"
  have s: "searchSegments ?st = [''foo '']" "lastProcessedIndex ?st = 0"
    by (simp_all add: onContentLine_def onSearchMarker_def initState_def)
  have h1: "searchSegments ?st \<noteq> []" by (simp add: s)
  have h2: "boyerMooreSearch ''abc'' (currentSearchContent (searchSegments ?st))
           (lastProcessedIndex ?st) = -1"
    unfolding s by code_simp
  have h3: "lineTrimmedFallbackMatch ''abc'' (currentSearchContent (searchSegments ?st))
           (lastProcessedIndex ?st) None = None"
    unfolding s by code_simp
  have h4: "blockAnchorFallbackMatch ''abc'' (currentSearchContent (searchSegments ?st))
           (lastProcessedIndex ?st) None = None"
    unfolding s by code_simp
  have t: "trimEnd (join_nl (searchSegments ?st)) = ''foo''"
    unfolding s by code_simp
  from no_match_fails_call[OF h1 h2 h3 h4,
      of "join_nl [SEARCH_MARKER, ''foo '', SEPARATOR_MARKER, ''x'', REPLACE_MARKER]" True "[''x'', REPLACE_MARKER]"] t
  show ?thesis by simp
qed

section \<open>Splitting and joining lines\<close>

lemma split_nl_no_nl: "NL \<notin> set xs \<Longrightarrow> split_nl xs = [xs]"
  by (induction xs) auto

lemma split_nl_append: "NL \<notin> set xs \<Longrightarrow> split_nl (xs @ NL # ys) = xs # split_nl ys"
  by (induction xs) auto

lemma split_join:
  "ls \<noteq> [] \<Longrightarrow> \<forall>l \<in> set ls. NL \<notin> set l \<Longrightarrow> split_nl (join_nl ls) = ls"
  by (induction ls rule: join_nl.induct) (simp_all add: split_nl_no_nl split_nl_append)

lemma join_nl_Cons: "join_nl (l # ls) = l @ (if ls = [] then [] else NL # join_nl ls)"
  by (cases ls) simp_all

lemma join_nl_append:
  "ys \<noteq> [] \<Longrightarrow> join_nl (xs @ ys) = replacementText xs @ join_nl ys"
proof (induction xs)
  case Nil
  then show ?case by (simp add: replacementText_def)
next
  case (Cons x xs)
  then show ?case by (simp add: join_nl_Cons replacementText_def)
qed

section \<open>indexOf, includes and slice\<close>

lemma indexOf_ge: "-1 \<le> indexOf s p"
  by (induction s) (auto simp: Let_def)

lemma js_includes_sublist: "js_includes s p \<longleftrightarrow> sublist p s"
proof (induction s)
  case Nil
  then show ?case by (auto simp: js_includes_def)
next
  case (Cons c cs)
  have "indexOf cs p < 0 \<longleftrightarrow> indexOf cs p = -1"
    using indexOf_ge[of cs p] by arith
  with Cons show ?case
    by (auto simp: js_includes_def Let_def sublist_Cons_right)
qed




lemma sublist_join_nl: "m \<in> set ls \<Longrightarrow> sublist m (join_nl ls)"
proof -
  assume "m \<in> set ls"
  then obtain xs ys where "ls = xs @ m # ys" by (auto dest: split_list)
  then have "join_nl ls = replacementText xs @ m @ (if ys = [] then [] else NL # join_nl ys)"
    by (simp add: join_nl_append join_nl_Cons)
  then show ?thesis unfolding sublist_def by blast
qed


section \<open>The string builder\<close>

lemma toString_append [simp]: "sb_toString (sb_append sb s) = sb_toString sb @ s"
  by (simp add: sb_toString_def sb_append_def)

lemma toString_appendLine [simp]: "sb_toString (sb_appendLine sb s) = sb_toString sb @ s @ [NL]"
  by (simp add: sb_appendLine_def)


lemma toString_fold_appendLine:
  "sb_toString (fold (\<lambda>l sb. sb_appendLine sb l) ls sb) = sb_toString sb @ replacementText ls"
  by (induction ls arbitrary: sb) (simp_all add: replacementText_def)


section \<open>Match ranges are offsets\<close>

lemma bm_loop_ge: "bm_loop t p off = -1 \<or> off \<le> bm_loop t p off"
proof (induction t p off rule: bm_loop.induct)
  case (1 t p off)
  show ?case
  proof (cases "off \<le> int (length t) - int (length p) \<and> bm_scan t p off (length p) \<noteq> 0")
    case True
    let ?off' = "off + max 1 (int (badCharShift t p (off + int (bm_scan t p off (length p)) - 1)))"
    from True have "bm_loop t p ?off' = -1 \<or> ?off' \<le> bm_loop t p ?off'"
      by (intro "1.IH"[OF _ refl]) simp_all
    moreover have "bm_loop t p off = bm_loop t p ?off'"
      using True by (subst bm_loop.simps) (simp add: Let_def)
    ultimately show ?thesis by auto
  next
    case False
    have "bm_loop t p off = (if off \<le> int (length t) - int (length p) then off else -1)"
      using False by (subst bm_loop.simps) (simp add: Let_def)
    then show ?thesis by simp
  qed
qed

lemma boyerMooreSearch_ge:
  "boyerMooreSearch t p c = -1 \<or> c \<le> boyerMooreSearch t p c"
  using bm_loop_ge[of t p c] by (auto simp: boyerMooreSearch_def)

lemma searchRange_nonneg:
  assumes "0 \<le> c" "searchRange orig idx c sc = Inr (s, e)"
  shows "0 \<le> s \<and> 0 \<le> e"
proof (cases "sc = []")
  case True
  with assms show ?thesis by (auto simp: searchRange_def split: if_splits)
next
  case False
  with assms(2) have l: "locateSearch orig sc c idx = Inr (s, e)"
    by (simp add: searchRange_def)
  show ?thesis
  proof (cases "boyerMooreSearch orig sc c = -1")
    case True
    with l show ?thesis
      by (auto simp: locateSearch_def Let_def split: option.splits)
  next
    case False
    with boyerMooreSearch_ge[of orig sc c] assms(1) have "0 \<le> boyerMooreSearch orig sc c" by arith
    with l False show ?thesis by (auto simp: locateSearch_def Let_def)
  qed
qed

section \<open>The loop over the segments of a block\<close>

lemma isContentLine_markers:
  "isContentLine l \<Longrightarrow> l \<noteq> SEARCH_MARKER \<and> l \<noteq> SEPARATOR_MARKER \<and> l \<noteq> REPLACE_MARKER"
  by (simp add: isContentLine_def)

lemma outsideState_idle: "outsideState r c rg rl (idleState r c rg rl)"
  by (simp add: outsideState_def idleState_def)

lemma outsideState_cases:
  assumes "outsideState r c rg rl st"
  obtains "st = idleState r c rg rl"
  | segs where "st = (idleState r c rg rl)\<lparr>inSearch := True, searchSegments := segs\<rparr>"
proof (cases "inSearch st")
  case True
  with assms have "st = (idleState r c rg rl)\<lparr>inSearch := True, searchSegments := searchSegments st\<rparr>"
    by (simp add: outsideState_def)
  then show ?thesis by (rule that(2))
next
  case False
  with assms have "st = (idleState r c rg rl)\<lparr>inSearch := False, searchSegments := []\<rparr>"
    by (auto simp: outsideState_def)
  then have "st = idleState r c rg rl" by (simp add: idleState_def)
  then show ?thesis by (rule that(1))
qed

lemma outsideState_search:
  "outsideState r c rg rl ((idleState r c rg rl)\<lparr>inSearch := True, searchSegments := segs\<rparr>)"
  by (simp add: outsideState_def idleState_def)

lemma outside_search_marker:
  assumes "outsideState r c rg rl st"
  shows "onSearchMarker st = (idleState r c rg rl)\<lparr>inSearch := True\<rparr>"
  using assms by (rule outsideState_cases) (simp_all add: onSearchMarker_def idleState_def)

lemma outside_step:
  assumes "outsideState r c rg rl st" "isOutsideLine l"
  shows "\<exists>st'. outsideState r c rg rl st' \<and> processLine d orig fin idx l st = Inr (Continue st')"
proof (cases "l = SEARCH_MARKER")
  case True
  have "outsideState r c rg rl ((idleState r c rg rl)\<lparr>inSearch := True, searchSegments := []\<rparr>)"
    by (rule outsideState_search)
  then have "outsideState r c rg rl (onSearchMarker st)"
    by (simp add: outside_search_marker[OF assms(1)] idleState_def)
  with True show ?thesis by (simp add: processLine_def)
next
  case False
  with assms(2) have p: "processLine d orig fin idx l st = Inr (Continue (onContentLine l st))"
    by (simp add: processLine_content isOutsideLine_def)
  from assms(1) have "outsideState r c rg rl (onContentLine l st)"
  proof (cases rule: outsideState_cases)
    case 1
    then show ?thesis by (simp add: onContentLine_def idleState_def outsideState_def)
  next
    case (2 segs)
    have "onContentLine l st
        = (idleState r c rg rl)\<lparr>inSearch := True, searchSegments := segs @ [l]\<rparr>"
      by (simp add: 2 onContentLine_def idleState_def)
    then show ?thesis by (simp only: outsideState_search)
  qed
  with p show ?thesis by blast
qed

lemma processLines_outside:
  assumes "outsideState r c rg rl st" "list_all isOutsideLine ns"
  shows "\<exists>st'. outsideState r c rg rl st' \<and>
           (\<forall>rest. processLines d orig fin idx (ns @ rest) st
                     = processLines d orig fin idx rest st')"
  using assms
proof (induction ns arbitrary: st)
  case Nil
  then show ?case by auto
next
  case (Cons l ns)
  from Cons.prems have "isOutsideLine l" "list_all isOutsideLine ns" by simp_all
  from outside_step[OF Cons.prems(1) this(1), of d orig fin idx]
  obtain st1 where st1: "outsideState r c rg rl st1"
      "processLine d orig fin idx l st = Inr (Continue st1)" by blast
  from Cons.IH[OF st1(1) \<open>list_all isOutsideLine ns\<close>]
  obtain st' where "outsideState r c rg rl st'"
      "\<forall>rest. processLines d orig fin idx (ns @ rest) st1
                = processLines d orig fin idx rest st'" by blast
  with st1(2) show ?case by auto
qed

lemma processLines_outside_end:
  assumes "outsideState r c rg rl st"
  shows "processLines d orig fin idx [] st
     = Inr \<lparr>content = sb_toString (if fin then appendRemaining orig (idleState r c rg rl) else r),
            changedRegions = rg\<rparr>"
  using assms
  by (rule outsideState_cases) (simp_all add: appendRemaining_def idleState_def)

lemma processLines_search_marker:
  "processLines d orig fin idx (SEARCH_MARKER # rest) st
     = processLines d orig fin idx rest (onSearchMarker st)"
  by (simp add: processLine_def)

lemma processLines_search_body:
  assumes "inSearch st" "list_all isContentLine ls"
  shows "processLines d orig fin idx (ls @ rest) st
     = processLines d orig fin idx rest (st\<lparr>searchSegments := searchSegments st @ ls\<rparr>)"
  using assms
proof (induction ls arbitrary: st)
  case Nil
  then show ?case by simp
next
  case (Cons l ls)
  let ?st = "st\<lparr>searchSegments := searchSegments st @ [l]\<rparr>"
  from Cons.prems have "processLine d orig fin idx l st = Inr (Continue ?st)"
    by (simp add: processLine_content isContentLine_markers onContentLine_def)
  moreover from Cons.prems have "processLines d orig fin idx (ls @ rest) ?st
     = processLines d orig fin idx rest (?st\<lparr>searchSegments := searchSegments ?st @ ls\<rparr>)"
    by (intro Cons.IH) simp_all
  ultimately show ?case by simp
qed

lemma processLines_replace_body:
  assumes "\<not> inSearch st" "inReplace st" "searchMatchIndex st \<noteq> -1" "list_all isContentLine ls"
  shows "processLines d orig fin idx (ls @ rest) st
     = processLines d orig fin idx rest
         (st\<lparr>replaceSegments := replaceSegments st @ ls,
             result := fold (\<lambda>l sb. sb_appendLine sb l) ls (result st),
             resultLength := resultLength st + sum_list (map (\<lambda>l. int (length l) + 1) ls)\<rparr>)"
  using assms
proof (induction ls arbitrary: st)
  case Nil
  then show ?case by simp
next
  case (Cons l ls)
  let ?st = "st\<lparr>replaceSegments := replaceSegments st @ [l],
                result := sb_appendLine (result st) l,
                resultLength := resultLength st + int (length l) + 1\<rparr>"
  from Cons.prems have "processLine d orig fin idx l st = Inr (Continue ?st)"
    by (simp add: processLine_content isContentLine_markers onContentLine_def)
  moreover from Cons.prems have "processLines d orig fin idx (ls @ rest) ?st
     = processLines d orig fin idx rest
         (?st\<lparr>replaceSegments := replaceSegments ?st @ ls,
             result := fold (\<lambda>l sb. sb_appendLine sb l) ls (result ?st),
             resultLength := resultLength ?st + sum_list (map (\<lambda>l. int (length l) + 1) ls)\<rparr>)"
    by (intro Cons.IH) simp_all
  ultimately show ?case by (simp add: add.assoc)
qed

lemma processLines_replace_marker:
  "processLines d orig fin idx (REPLACE_MARKER # rest) st =
     (case onReplaceMarker d orig fin REPLACE_MARKER st of
        Finished r \<Rightarrow> Inr r
      | Continue st' \<Rightarrow> processLines d orig fin idx rest st')"
  by (simp add: processLine_def SEARCH_MARKER_def SEPARATOR_MARKER_def REPLACE_MARKER_def
      split: step.splits)

section \<open>One complete block\<close>


lemma process_block:
  fixes R :: StringBuilder and rg :: "ChangeRegion list"
  assumes wf: "wellFormedBlock b" and st: "outsideState R c rg rl st"
    and c: "0 \<le> c" and rl: "0 \<le> rl"
    and sr: "searchRange orig idx c (currentSearchContent (searchBody b)) = Inr (s, e)"
  defines "R1 \<equiv> (if s > c then sb_appendSlice R orig c s else R)"
    and "rl1 \<equiv> (if s > c then rl + (s - c) else rl)"
  defines "R2 \<equiv> fold (\<lambda>l sb. sb_appendLine sb l) (replaceBody b) R1"
    and "rl2 \<equiv> rl1 + sum_list (map (\<lambda>l. int (length l) + 1) (replaceBody b))"
  defines "rg2 \<equiv> rg @ [\<lparr>startLine = getLineNumberFromOffset (sb_toString R2) rl1,
                          endLine = getLineNumberFromOffset (sb_toString R2) rl2,
                          startOffset = rl1, endOffset = rl2\<rparr>]"
  shows "processLines d orig fin idx (blockLines b @ rest) st =
     (if fin \<and> noFurtherSearch d REPLACE_MARKER
      then Inr \<lparr>content = sb_toString (appendRemaining orig (idleState R2 e rg2 rl2)),
                changedRegions = rg2\<rparr>
      else processLines d orig fin idx rest (idleState R2 e rg2 rl2))"
proof -
  let ?st0 = "idleState R c rg rl"
  let ?st1 = "?st0\<lparr>inSearch := True\<rparr>"
  let ?st2 = "?st1\<lparr>searchSegments := searchSegments ?st1 @ searchBody b\<rparr>"
  let ?st3 = "\<lparr>result = R1, lastProcessedIndex = c, regions = rg, resultLength = rl1,
      searchSegments = searchBody b, replaceSegments = [], inSearch = False, inReplace = True,
      searchMatchIndex = s, searchEndIndex = e, replacementStartOffset = rl1\<rparr>"
  let ?st4 = "?st3\<lparr>replaceSegments := replaceSegments ?st3 @ replaceBody b,
             result := fold (\<lambda>l sb. sb_appendLine sb l) (replaceBody b) (result ?st3),
             resultLength := resultLength ?st3
                + sum_list (map (\<lambda>l. int (length l) + 1) (replaceBody b))\<rparr>"
  from wf have w: "list_all isOutsideLine (leading b)" "list_all isContentLine (searchBody b)"
      "list_all isContentLine (replaceBody b)"
    by (simp_all add: wellFormedBlock_def)
  from searchRange_nonneg[OF c sr] have se: "0 \<le> s" "0 \<le> e" by simp_all
  from c rl have rl1: "0 \<le> rl1" by (simp add: rl1_def)
  from processLines_outside[OF st w(1), of d orig fin idx]
  obtain st' where st': "outsideState R c rg rl st'"
    "\<forall>rest. processLines d orig fin idx (leading b @ rest) st
              = processLines d orig fin idx rest st'" by blast
  have "processLines d orig fin idx (blockLines b @ rest) st
      = processLines d orig fin idx
          (SEARCH_MARKER # (searchBody b @ SEPARATOR_MARKER # replaceBody b @ REPLACE_MARKER # rest)) st'"
    using st'(2) by (simp add: blockLines_def)
  also have "\<dots> = processLines d orig fin idx
          (searchBody b @ SEPARATOR_MARKER # replaceBody b @ REPLACE_MARKER # rest) ?st1"
    by (simp only: processLines_search_marker outside_search_marker[OF st'(1)])
  also have "\<dots> = processLines d orig fin idx
          (SEPARATOR_MARKER # replaceBody b @ REPLACE_MARKER # rest) ?st2"
    by (rule processLines_search_body[OF _ w(2)]) simp
  also have "\<dots> = processLines d orig fin idx (replaceBody b @ REPLACE_MARKER # rest) ?st3"
  proof -
    have "onSeparator orig idx ?st2 = Inr ?st3"
      using sr by (simp add: onSeparator_def idleState_def Let_def R1_def rl1_def)
    then show ?thesis by (subst processLines_separator) simp
  qed
  also have "\<dots> = processLines d orig fin idx (REPLACE_MARKER # rest) ?st4"
    using se by (intro processLines_replace_body[OF _ _ _ w(3)]) simp_all
  also have "\<dots> = (if fin \<and> noFurtherSearch d REPLACE_MARKER
      then Inr \<lparr>content = sb_toString (appendRemaining orig (idleState R2 e rg2 rl2)),
                changedRegions = rg2\<rparr>
      else processLines d orig fin idx rest (idleState R2 e rg2 rl2))"
  proof -
    have "onReplaceMarker d orig fin REPLACE_MARKER ?st4 =
       (if fin \<and> noFurtherSearch d REPLACE_MARKER
        then Finished \<lparr>content = sb_toString (appendRemaining orig (idleState R2 e rg2 rl2)),
                changedRegions = rg2\<rparr>
        else Continue (idleState R2 e rg2 rl2))"
      using se rl1
      by (simp add: onReplaceMarker_def Let_def idleState_def R2_def rl2_def rg2_def)
    then show ?thesis by (subst processLines_replace_marker) simp
  qed
  finally show ?thesis .
qed

section \<open>A sequence of complete blocks\<close>

lemma processLines_trailer:
  assumes "outsideState R c rg rl st" "list_all isOutsideLine trailer"
  shows "processLines d orig fin idx trailer st
     = Inr \<lparr>content = sb_toString (if fin then appendRemaining orig (idleState R c rg rl) else R),
            changedRegions = rg\<rparr>"
proof -
  from processLines_outside[OF assms, of d orig fin idx]
  obtain st' where o: "outsideState R c rg rl st'"
    and e: "\<forall>rest. processLines d orig fin idx (trailer @ rest) st
                   = processLines d orig fin idx rest st'"
    by blast
  from e have "processLines d orig fin idx trailer st = processLines d orig fin idx [] st'"
    by (metis append_Nil2)
  also note processLines_outside_end[OF o]
  finally show ?thesis .
qed


section \<open>From the diff text to its lines\<close>

lemma marker_no_nl:
  "NL \<notin> set SEARCH_MARKER" "NL \<notin> set SEPARATOR_MARKER" "NL \<notin> set REPLACE_MARKER"
  by (simp_all add: SEARCH_MARKER_def SEPARATOR_MARKER_def REPLACE_MARKER_def)

lemma blockLines_no_nl:
  "wellFormedBlock b \<Longrightarrow> l \<in> set (blockLines b) \<Longrightarrow> NL \<notin> set l"
  by (auto simp: blockLines_def wellFormedBlock_def list_all_iff isContentLine_def
      isOutsideLine_def marker_no_nl)

lemma diff_lines_no_nl:
  assumes "list_all wellFormedBlock bs" "list_all isOutsideLine trailer"
  shows "\<forall>l \<in> set (concat (map blockLines bs) @ trailer). NL \<notin> set l"
  using assms by (auto simp: list_all_iff isOutsideLine_def dest: blockLines_no_nl)

lemma last_blocks:
  "bs \<noteq> [] \<Longrightarrow> last (concat (map blockLines bs)) = REPLACE_MARKER"
  by (induction bs) (auto simp: blockLines_def)

lemma concat_blocks_nonempty: "bs \<noteq> [] \<Longrightarrow> concat (map blockLines bs) \<noteq> []"
  by (cases bs) (simp_all add: blockLines_def)

lemma strip_diff_lines:
  assumes "list_all isOutsideLine trailer" "bs \<noteq> [] \<or> trailer \<noteq> []"
  shows "\<exists>trailer'. list_all isOutsideLine trailer' \<and>
           stripPartialMarker (concat (map blockLines bs) @ trailer)
             = concat (map blockLines bs) @ trailer'"
proof (cases "trailer = []")
  case True
  with assms(2) have "bs \<noteq> []" by simp
  then have "last (concat (map blockLines bs) @ trailer) = REPLACE_MARKER"
    using True by (simp add: last_blocks)
  then have "stripPartialMarker (concat (map blockLines bs) @ trailer)
       = concat (map blockLines bs) @ trailer"
    by (simp add: stripPartialMarker_def Let_def)
  with True show ?thesis by auto
next
  case False
  then have "butlast (concat (map blockLines bs) @ trailer)
      = concat (map blockLines bs) @ butlast trailer"
    by (simp add: butlast_append)
  then have "stripPartialMarker (concat (map blockLines bs) @ trailer)
       = concat (map blockLines bs) @ trailer \<or>
     stripPartialMarker (concat (map blockLines bs) @ trailer)
       = concat (map blockLines bs) @ butlast trailer"
    by (simp add: stripPartialMarker_def Let_def)
  moreover from assms(1) have "list_all isOutsideLine (butlast trailer)"
    by (auto simp: list_all_iff dest: in_set_butlastD)
  ultimately show ?thesis using assms(1) by blast
qed

lemma diff_includes_search:
  "bs \<noteq> [] \<Longrightarrow> js_includes (diffOfBlocks bs trailer) SEARCH_MARKER"
proof -
  assume "bs \<noteq> []"
  then have "SEARCH_MARKER \<in> set (concat (map blockLines bs) @ trailer)"
    by (cases bs) (simp_all add: blockLines_def)
  then show ?thesis
    by (simp only: js_includes_sublist diffOfBlocks_def sublist_join_nl)
qed


lemma construct_blocks:
  assumes "list_all wellFormedBlock bs" "list_all isOutsideLine trailer" "bs \<noteq> []"
  shows "\<exists>trailer'. list_all isOutsideLine trailer' \<and>
           constructNewFileContent (diffOfBlocks bs trailer) orig fin
             = processLines (diffOfBlocks bs trailer) orig fin (lineIndexFor orig)
                 (concat (map blockLines bs) @ trailer') initState"
proof -
  let ?L = "concat (map blockLines bs) @ trailer"
  from concat_blocks_nonempty[OF assms(3)] have ne: "?L \<noteq> []"
    by (metis append_is_Nil_conv)
  from split_join[OF ne diff_lines_no_nl[OF assms(1,2)]]
  have sp: "split_nl (diffOfBlocks bs trailer) = ?L" by (simp add: diffOfBlocks_def)
  from strip_diff_lines[OF assms(2), of bs] assms(3)
  obtain trailer' where t: "list_all isOutsideLine trailer'"
    "stripPartialMarker ?L = concat (map blockLines bs) @ trailer'" by auto
  have "constructNewFileContent (diffOfBlocks bs trailer) orig fin
             = processLines (diffOfBlocks bs trailer) orig fin (lineIndexFor orig)
                 (concat (map blockLines bs) @ trailer') initState"
    using diff_includes_search[OF assms(3)]
    by (simp add: constructNewFileContent_def Let_def sp t(2))
  with t(1) show ?thesis by blast
qed


section \<open>Byte preservation outside the matched ranges\<close>



section \<open>The empty search block\<close>

lemma lineNumber_zero: "getLineNumberFromOffset t 0 = 0"
  by (simp add: getLineNumberFromOffset_def js_slice_def)

lemma lineNumber_end:
  "getLineNumberFromOffset t (int (length t)) = length (filter (\<lambda>c. c = NL) t)"
  by (simp add: getLineNumberFromOffset_def js_slice_def)

lemma newlines_replacementText:
  "list_all isContentLine rs \<Longrightarrow> length (filter (\<lambda>c. c = NL) (replacementText rs)) = length rs"
  by (induction rs) (auto simp: replacementText_def isContentLine_def filter_empty_conv)

lemma length_replacementText:
  "sum_list (map (\<lambda>l. int (length l) + 1) rs) = int (length (replacementText rs))"
  by (induction rs) (auto simp: replacementText_def)

text \<open>
  C6. A block with an empty search body matches (0, 0) in an empty original and
  (0, len(original)) otherwise; a final call on a single such block with the replace
  lines \<open>rs\<close> returns exactly these lines, each followed by a newline, with one change
  region from offset 0 to the length of the content.
\<close>

theorem empty_search_replaces_whole_file:
  assumes "list_all isContentLine rs" "list_all isOutsideLine trailer"
  shows "searchRange original lineIndex cursor (currentSearchContent [])
           = Inr (if length original = 0 then (0, 0) else (0, int (length original))) \<and>
         constructNewFileContent
             (diffOfBlocks [\<lparr>leading = [], searchBody = [], replaceBody = rs\<rparr>] trailer)
             original True
           = Inr \<lparr>content = replacementText rs,
                  changedRegions =
                    [\<lparr>startLine = 0, endLine = length rs, startOffset = 0,
                      endOffset = int (length (replacementText rs))\<rparr>]\<rparr>"
proof -
  let ?b = "\<lparr>leading = [], searchBody = [], replaceBody = rs\<rparr>"
  let ?d = "diffOfBlocks [?b] trailer"
  let ?idx = "lineIndexFor original"
  let ?n = "int (length original)"
  have sr: "searchRange original idx c (currentSearchContent []) = Inr (0, ?n)" for idx c
    by (simp add: searchRange_def currentSearchContent_def)
  have sr': "searchRange original ?idx 0 (currentSearchContent (searchBody ?b)) = Inr (0, ?n)"
    by (simp add: sr)
  have wf: "wellFormedBlock ?b" using assms(1) by (simp add: wellFormedBlock_def)
  from construct_blocks[of "[?b]" trailer original True] wf assms(2)
  obtain trailer' where t: "list_all isOutsideLine trailer'"
    "constructNewFileContent ?d original True
       = processLines ?d original True ?idx (blockLines ?b @ trailer') initState"
    by auto
  define R2 where "R2 = fold (\<lambda>l sb. sb_appendLine sb l) rs sb_new"
  define rl2 where "rl2 = int (length (replacementText rs))"
  define rg2 where "rg2 = [\<lparr>startLine = 0, endLine = length rs, startOffset = 0, endOffset = rl2\<rparr>]"
  have new: "sb_toString sb_new = []" by (simp add: sb_new_def sb_toString_def)
  have R2: "sb_toString R2 = replacementText rs"
    by (simp add: R2_def toString_fold_appendLine new)
  have i: "initState = idleState sb_new 0 [] 0"
    by (simp add: idleState_def initState_def)
  have blk: "processLines ?d original True ?idx (blockLines ?b @ trailer') (idleState sb_new 0 [] 0) =
     (if True \<and> noFurtherSearch ?d REPLACE_MARKER
      then Inr \<lparr>content = sb_toString (appendRemaining original (idleState R2 ?n rg2 rl2)),
                changedRegions = rg2\<rparr>
      else processLines ?d original True ?idx trailer' (idleState R2 ?n rg2 rl2))"
    using process_block[where b = ?b and c = 0 and rl = 0 and R = sb_new and rg = "[]"
          and d = ?d and fin = True and rest = trailer' and orig = original and idx = ?idx
          and s = 0 and e = ?n, OF wf outsideState_idle _ _ sr']
    by (simp add: R2_def rl2_def rg2_def length_replacementText lineNumber_zero
        R2[unfolded R2_def] lineNumber_end newlines_replacementText[OF assms(1)])
  have fin: "sb_toString (appendRemaining original (idleState R2 ?n rg2 rl2)) = replacementText rs"
    by (simp add: appendRemaining_def idleState_def R2)
  have "constructNewFileContent ?d original True
      = Inr \<lparr>content = replacementText rs, changedRegions = rg2\<rparr>"
    unfolding t(2) i blk by (simp add: processLines_trailer[OF outsideState_idle t(1)] fin)
  then show ?thesis by (simp add: sr rg2_def rl2_def)
qed

text \<open>The replace lines "new 1" and "new 2" over the original "old\n".\<close>

theorem empty_search_replaces_whole_file_witness:
  "constructNewFileContent
      (diffOfBlocks [\<lparr>leading = [], searchBody = [], replaceBody = [''new 1'', ''new 2'']\<rparr>] [[]])
      (''old'' @ [NL]) True
     = Inr \<lparr>content = ''new 1'' @ [NL] @ ''new 2'' @ [NL],
            changedRegions = [\<lparr>startLine = 0, endLine = 2, startOffset = 0, endOffset = 12\<rparr>]\<rparr>"
proof -
  have h1: "list_all isContentLine [''new 1'', ''new 2'']" by code_simp
  have h2: "list_all isOutsideLine [[]]" by code_simp
  have r: "replacementText [''new 1'', ''new 2''] = ''new 1'' @ [NL] @ ''new 2'' @ [NL]"
    by code_simp
  from empty_search_replaces_whole_file[OF h1 h2, of "''old'' @ [NL]"]
  show ?thesis by (simp add: r)
qed

section \<open>The fallback matches without a line index\<close>

text \<open>
  Without a line index the start line is the first line whose offset is at or after
  the cursor, and the range of a match starts at or after the cursor. An index given
  for an original below the size threshold is not used.
\<close>

lemma startLineNum_scan_bound:
  "cur = sum_list (map (\<lambda>j. length (ls ! j) + 1) [0..<k]) \<Longrightarrow>
   k \<le> startLineNum_scan ls start cur k \<and>
   (startLineNum_scan ls start cur k < length ls \<longrightarrow>
      start \<le> int (sum_list (map (\<lambda>j. length (ls ! j) + 1)
                         [0..<startLineNum_scan ls start cur k])))"
proof (induction ls start cur k rule: startLineNum_scan.induct)
  case (1 ls start cur k)
  show ?case
  proof (cases "int cur < start \<and> k < length ls")
    case True
    then have eq: "startLineNum_scan ls start cur k
        = startLineNum_scan ls start (cur + length (ls ! k) + 1) (Suc k)"
      by (subst startLineNum_scan.simps) simp
    have "cur + length (ls ! k) + 1 = sum_list (map (\<lambda>j. length (ls ! j) + 1) [0..<Suc k])"
      using "1.prems" by simp
    from "1.IH"[OF True this] show ?thesis unfolding eq by auto
  next
    case False
    then have eq: "startLineNum_scan ls start cur k = k"
      by (subst startLineNum_scan.simps) auto
    from False "1.prems" show ?thesis unfolding eq by auto
  qed
qed

lemma lineStart_mono:
  "r \<le> p \<Longrightarrow> sum_list (map (f :: nat \<Rightarrow> nat) [0..<r]) \<le> sum_list (map f [0..<p])"
proof -
  assume "r \<le> p"
  then have "[0..<p] = [0..<r] @ [r..<p]"
    by (metis le_add_diff_inverse upt_add_eq_append zero_le)
  then show ?thesis by simp
qed

lemma fold_positions_subset:
  assumes "fold (\<lambda>i m. m(key i \<mapsto> (case m (key i) of None \<Rightarrow> [] | Some ps \<Rightarrow> ps) @ [i])) is m0 k
             = Some ps"
    and "\<And>ps0. m0 k = Some ps0 \<Longrightarrow> set ps0 \<subseteq> S" and "set is \<subseteq> S"
  shows "set ps \<subseteq> S"
  using assms
proof (induction "is" arbitrary: m0)
  case Nil
  then show ?case by simp
next
  case (Cons i "is")
  let ?m1 = "m0(key i \<mapsto> (case m0 (key i) of None \<Rightarrow> [] | Some ps \<Rightarrow> ps) @ [i])"
  from Cons.prems(1) have "fold (\<lambda>i m. m(key i \<mapsto> (case m (key i) of None \<Rightarrow> [] | Some ps \<Rightarrow> ps) @ [i]))
      is ?m1 k = Some ps" by (simp only: fold.simps o_apply)
  moreover have "\<And>ps0. ?m1 k = Some ps0 \<Longrightarrow> set ps0 \<subseteq> S"
    using Cons.prems(2,3) by (auto split: if_splits option.splits)
  moreover from Cons.prems(3) have "set is \<subseteq> S" by simp
  ultimately show ?case by (rule Cons.IH)
qed

lemma lineHashMap_positions:
  assumes "lineHashMap ls is k = Some ps"
  shows "set ps \<subseteq> set is"
proof (rule fold_positions_subset)
  show "fold (\<lambda>i m. m(trim (ls ! i) \<mapsto>
                 (case m (trim (ls ! i)) of None \<Rightarrow> [] | Some ps \<Rightarrow> ps) @ [i]))
          is Map.empty k = Some ps"
    using assms by (simp only: lineHashMap_def)
  show "\<And>ps0. Map.empty k = Some ps0 \<Longrightarrow> set ps0 \<subseteq> set is" by simp
  show "set is \<subseteq> set is" by simp
qed

lemma find_SomeD: "find P xs = Some x \<Longrightarrow> x \<in> set xs"
  by (induction xs) (auto split: if_splits)

lemma candidate_start_bound:
  assumes "pos \<in> set (candidateLines (startLineNum_scan ls start 0 0) (length ls) k)" "0 < k"
  shows "start \<le> int (fst (matchOffsets ls pos k))"
proof -
  let ?r = "startLineNum_scan ls start 0 0"
  from assms have p: "?r \<le> pos" "pos < length ls"
    by (auto simp: candidateLines_def split: if_splits)
  from startLineNum_scan_bound[of 0 ls 0 start] p
  have "start \<le> int (sum_list (map (\<lambda>j. length (ls ! j) + 1) [0..<?r]))" by simp
  also have "\<dots> \<le> int (sum_list (map (\<lambda>j. length (ls ! j) + 1) [0..<pos]))"
    using lineStart_mono[OF p(1)] by simp
  finally show ?thesis by (simp add: matchOffsets_def Let_def)
qed

lemma lineTrimmed_direct_start:
  assumes "lineTrimmed_direct orig search start = Some (s, e)"
  shows "start \<le> int s"
proof -
  let ?ols = "split_nl orig"
  let ?s0 = "split_nl search"
  let ?sls = "if last ?s0 = [] then butlast ?s0 else ?s0"
  let ?cand = "candidateLines (startLineNum_scan ?ols start 0 0) (length ?ols) (length ?sls)"
  let ?ps = "case lineHashMap ?ols ?cand (trim (?sls ! 0)) of None \<Rightarrow> [] | Some ps \<Rightarrow> ps"
  from assms obtain pos where k: "0 < length ?sls"
    and f: "find (\<lambda>pos. list_all (\<lambda>j. trim (?ols ! (pos + j)) = trim (?sls ! j))
                     [0..<length ?sls]) ?ps = Some pos"
    and r: "(s, e) = matchOffsets ?ols pos (length ?sls)"
    by (auto simp: lineTrimmed_direct_def Let_def split_nl_nonempty
        split: if_splits option.splits)
  from f have "pos \<in> set ?ps" by (rule find_SomeD)
  have "pos \<in> set ?cand"
  proof (cases "lineHashMap ?ols ?cand (trim (?sls ! 0))")
    case None
    with \<open>pos \<in> set ?ps\<close> show ?thesis by simp
  next
    case (Some ps)
    with \<open>pos \<in> set ?ps\<close> have "pos \<in> set ps" by simp
    with lineHashMap_positions[OF Some] show ?thesis by blast
  qed
  from candidate_start_bound[OF this k] r show ?thesis by (metis fst_conv)
qed

lemma blockAnchor_direct_start:
  assumes "blockAnchor_direct orig search start = Some (s, e)"
  shows "start \<le> int s"
proof -
  let ?ols = "split_nl orig"
  let ?s0 = "split_nl search"
  let ?sls = "if last ?s0 = [] then butlast ?s0 else ?s0"
  let ?cand = "candidateLines (startLineNum_scan ?ols start 0 0) (length ?ols) (length ?sls)"
  from assms obtain pos where k: "3 \<le> length ?s0"
    and f: "find (\<lambda>i. trim (?ols ! i) = trim (?sls ! 0) \<and>
                   trim (?ols ! (i + length ?sls - 1)) = trim (?sls ! (length ?sls - 1)))
               ?cand = Some pos"
    and r: "(s, e) = matchOffsets ?ols pos (length ?sls)"
    by (auto simp: blockAnchor_direct_def Let_def split: if_splits option.splits)
  have "length ?s0 - 1 \<le> length ?sls" by simp
  with k have k': "0 < length ?sls" by linarith
  from f have "pos \<in> set ?cand" by (rule find_SomeD)
  from candidate_start_bound[OF this k'] r show ?thesis by (metis fst_conv)
qed

lemma direct_matches_start_at_cursor:
  "lineTrimmedFallbackMatch orig search start None = Some (s, e) \<Longrightarrow> start \<le> int s"
  "blockAnchorFallbackMatch orig search start None = Some (s, e) \<Longrightarrow> start \<le> int s"
  by (simp_all add: lineTrimmedFallbackMatch_def blockAnchorFallbackMatch_def
      lineTrimmed_direct_start blockAnchor_direct_start)

lemma small_original_ignores_index:
  "\<not> shouldUseIndex orig \<Longrightarrow>
   lineTrimmedFallbackMatch orig search start (Some idx)
     = lineTrimmedFallbackMatch orig search start None"
  "\<not> shouldUseIndex orig \<Longrightarrow>
   blockAnchorFallbackMatch orig search start (Some idx)
     = blockAnchorFallbackMatch orig search start None"
  by (simp_all add: lineTrimmedFallbackMatch_def blockAnchorFallbackMatch_def)

section \<open>The large original\<close>

lemma trim_replicate: "\<not> is_ws c \<Longrightarrow> trim (replicate n c) = replicate n c"
  by (cases n) (simp_all add: trim_def trimStart_def trimEnd_def replicate_append_same)

lemma zLine_facts:
  "length zLine = 1048576" "NL \<notin> set zLine" "trim zLine = zLine"
  "zLine \<noteq> ''a''" "''a'' \<noteq> zLine"
proof -
  show "length zLine = 1048576" by (simp add: zLine_def)
  then have "length zLine \<noteq> length ''a''" by simp
  then show "zLine \<noteq> ''a''" "''a'' \<noteq> zLine" by metis+
  show "NL \<notin> set zLine" by (simp add: zLine_def)
  show "trim zLine = zLine" unfolding zLine_def by (rule trim_replicate) (simp add: is_ws_def)
qed

lemma trim_a: "trim ''a'' = ''a''"
  by (simp add: trim_def trimStart_def trimEnd_def is_ws_def)

lemma lines_bigOriginal: "split_nl bigOriginal = [''a'', ''a'', zLine]"
  by (simp add: bigOriginal_def split_nl_no_nl zLine_facts)

lemma shouldUseIndex_bigOriginal: "shouldUseIndex bigOriginal"
  by (simp add: shouldUseIndex_def bigOriginal_def zLine_facts)

lemma buildIndex_bigOriginal:
  "buildIndex bigOriginal =
     \<lparr>contentToPositions = [''a'' \<mapsto> [0, 1], zLine \<mapsto> [2]],
      lineToOffset = [0, 2, 4, 1048581],
      lines = [''a'', ''a'', zLine]\<rparr>"
  by (simp add: buildIndex_def lines_bigOriginal trim_a zLine_facts numeral_2_eq_2[symmetric])


lemma upt3: "[0..<3::nat] = [0, 1, 2]"
  by code_simp

lemmas idx_simps = buildIndex_bigOriginal getLineCount_def getPositionsForLine_def
  getOffsetForLine_def getLineAt_def trim_a zLine_facts

lemma startLineNum_indexed_big: "startLineNum_indexed (buildIndex bigOriginal) 2 = 0"
  by (simp add: startLineNum_indexed_def idx_simps upt3)

lemma startLineNum_scan_big: "startLineNum_scan [''a'', ''a'', zLine] 2 0 0 = 1"
  by (simp add: startLineNum_scan.simps)

lemma findExactMatch_big: "findExactMatch (buildIndex bigOriginal) [''a''] 0 = Some (0, 2)"
  by (simp add: findExactMatch_def findPotentialMatches_def idx_simps)

lemma lineTrimmed_indexed_big:
  "lineTrimmed_indexed (buildIndex bigOriginal) (''a'' @ [NL]) 2 = Some (0, 2)"
  by (simp add: lineTrimmed_indexed_def popTrailingEmpty_def startLineNum_indexed_big
      findExactMatch_big)

lemma lineTrimmed_direct_big:
  "lineTrimmed_direct bigOriginal (''a'' @ [NL]) 2 = Some (2, 4)"
  by (simp add: lineTrimmed_direct_def lines_bigOriginal startLineNum_scan_big
      candidateLines_def lineHashMap_def matchOffsets_def trim_a zLine_facts upt_rec)

lemma blockAnchor_indexed_big:
  "blockAnchor_indexed (buildIndex bigOriginal) (''a'' @ [NL] @ ''a'' @ [NL]) 2 = Some (0, 4)"
  by (simp add: blockAnchor_indexed_def popTrailingEmpty_def startLineNum_indexed_big Let_def)
     (simp add: idx_simps)

lemma blockAnchor_direct_big:
  "blockAnchor_direct bigOriginal (''a'' @ [NL] @ ''a'' @ [NL]) 2 = None"
  by (simp add: blockAnchor_direct_def lines_bigOriginal startLineNum_scan_big
      candidateLines_def trim_a zLine_facts upt_rec)

section \<open>The fallback matches with a line index\<close>

text \<open>
  C3. The fallback matches are claimed never to return a range that starts below the
  cursor, with or without a line index. With an index the start line is taken as the
  line before the first line whose offset is at or after the cursor
  (\<open>startLineNum = i > 0 ? i - 1 : 0\<close>). On the large original, whose lines start at
  the offsets 0, 2 and 4, with the cursor 2 (the end of a first block that replaced
  line 0) the search starts at line 0 again: the line-trimmed match of "a\n" returns
  the range (0, 2) and the block-anchor match of "a\na\n" the range (0, 4), both
  starting below the cursor.
\<close>

theorem indexed_match_starts_below_cursor:
  "lineTrimmedFallbackMatch bigOriginal (''a'' @ [NL]) 2 (Some (buildIndex bigOriginal))
     = Some (0, 2) \<and>
   blockAnchorFallbackMatch bigOriginal (''a'' @ [NL] @ ''a'' @ [NL]) 2
       (Some (buildIndex bigOriginal))
     = Some (0, 4)"
  using shouldUseIndex_bigOriginal lineTrimmed_indexed_big blockAnchor_indexed_big
  by (simp add: lineTrimmedFallbackMatch_def blockAnchorFallbackMatch_def)

text \<open>
  C9. The fallback matches are claimed to return the same result with a line index
  built from the content as without one. On the large original with the cursor 2 the
  line-trimmed match of "a\n" is (0, 2) with the index and (2, 4) without it, and the
  block-anchor match of "a\na\n" is (0, 4) with the index and fails without it.
\<close>

theorem indexed_and_direct_match_differ:
  "lineTrimmedFallbackMatch bigOriginal (''a'' @ [NL]) 2 (Some (buildIndex bigOriginal))
     = Some (0, 2) \<and>
   lineTrimmedFallbackMatch bigOriginal (''a'' @ [NL]) 2 None = Some (2, 4) \<and>
   blockAnchorFallbackMatch bigOriginal (''a'' @ [NL] @ ''a'' @ [NL]) 2
       (Some (buildIndex bigOriginal))
     = Some (0, 4) \<and>
   blockAnchorFallbackMatch bigOriginal (''a'' @ [NL] @ ''a'' @ [NL]) 2 None = None"
  using shouldUseIndex_bigOriginal lineTrimmed_indexed_big blockAnchor_indexed_big
    lineTrimmed_direct_big blockAnchor_direct_big
  by (simp add: lineTrimmedFallbackMatch_def blockAnchorFallbackMatch_def)

end
